theory Spec2Isabelle
  imports Complex_Main
begin

section \<open>JavaScript numbers\<close>

text \<open>
  The handlers compute money with JavaScript numbers, that is IEEE-754 binary64 values
  with round-to-nearest, ties-to-even. A finite binary64 value is a rational number, so a
  number is modelled as a \<^typ>\<open>rat\<close> and every arithmetic operation rounds its exact
  result with \<open>to_double\<close>. The exponent range is not bounded in the model (no overflow to
  Infinity, no subnormal numbers); NaN does not arise from finite products and sums.
\<close>

fun bit_length :: "nat \<Rightarrow> nat" where
  "bit_length n = (if n = 0 then 0 else Suc (bit_length (n div 2)))"

definition pow2 :: "int \<Rightarrow> rat" where
  "pow2 e = (if 0 \<le> e then 2 ^ nat e else 1 / 2 ^ nat (- e))"

definition ilog2 :: "rat \<Rightarrow> int" where
  \<comment> \<open>the integer \<open>k\<close> with \<open>2^k \<le> x < 2^(k+1)\<close>, for positive \<open>x\<close>\<close>
  "ilog2 x =
     (if 1 \<le> x then int (bit_length (nat \<lfloor>x\<rfloor>)) - 1
      else (let j = int (bit_length (nat \<lfloor>1 / x\<rfloor>)) - 1
            in if 1 / x = pow2 j then - j else - j - 1))"

definition round_half_even :: "rat \<Rightarrow> int" where
  "round_half_even s =
     (let n = \<lfloor>s\<rfloor>; r = s - of_int n
      in if r < 1 / 2 then n
         else if 1 / 2 < r then n + 1
         else if even n then n else n + 1)"

definition to_double :: "rat \<Rightarrow> rat" where
  \<comment> \<open>the binary64 value nearest to \<open>x\<close>: a 53-bit significand times a power of two\<close>
  "to_double x =
     (if x = 0 then 0
      else (let e = ilog2 \<bar>x\<bar> - 52
            in sgn x * of_int (round_half_even (\<bar>x\<bar> / pow2 e)) * pow2 e))"

definition js_lit :: "rat \<Rightarrow> rat" where
  \<comment> \<open>the value of a decimal literal of the source, such as \<open>0.08\<close>\<close>
  "js_lit r = to_double r"

definition js_int :: "int \<Rightarrow> rat" where
  \<comment> \<open>an INTEGER column read into a JavaScript number\<close>
  "js_int i = to_double (of_int i)"

definition js_mul :: "rat \<Rightarrow> rat \<Rightarrow> rat" where
  "js_mul a b = to_double (a * b)"

definition js_add :: "rat \<Rightarrow> rat \<Rightarrow> rat" where
  "js_add a b = to_double (a + b)"

section \<open>The store\<close>

text \<open>
  The tables of \<open>server/database/init.js\<close> that the order and payment flow reads or writes,
  each as the list of its rows. Columns that no handler of the flow reads (descriptions,
  sku, images, ...) are left out. \<open>INTEGER PRIMARY KEY AUTOINCREMENT\<close> gives a new row the
  successor of the largest row id of the table and of the table's entry in
  \<open>sqlite_sequence\<close>, which the store keeps per table.
\<close>

record product =
  p_id :: int
  p_name :: string
  p_price :: rat
  p_stock_quantity :: int
  p_is_active :: int

record cart_item =
  ci_id :: int
  ci_user_id :: int
  ci_product_id :: int
  ci_quantity :: int

record order =
  o_id :: int
  o_user_id :: int
  o_order_number :: string
  o_status :: string
  o_subtotal :: rat
  o_tax_amount :: rat
  o_shipping_amount :: rat
  o_discount_amount :: rat
  o_total_amount :: rat
  o_currency :: string
  o_payment_status :: string
  o_payment_method :: "string option"
  o_payment_id :: "string option"
  o_shipping_address_id :: "int option"
  o_billing_address_id :: "int option"
  o_notes :: "string option"
  o_shipped_at :: "nat option"
  o_delivered_at :: "nat option"
  o_created_at :: nat
  o_updated_at :: nat

record order_item =
  oi_id :: int
  oi_order_id :: int
  oi_product_id :: int
  oi_quantity :: int
  oi_unit_price :: rat
  oi_total_price :: rat

record db =
  products :: "product list"
  cart_items :: "cart_item list"
  orders :: "order list"
  order_items :: "order_item list"
  seq_products :: int
  seq_cart_items :: int
  seq_orders :: int
  seq_order_items :: int

definition next_rowid :: "int \<Rightarrow> int list \<Rightarrow> int" where
  "next_rowid seq ids = max seq (fold max ids 0) + 1"

text \<open>
  A statement of the store may raise (constraint violation, I/O error, full disk); every
  handler wraps its body in \<open>try { ... } catch\<close> and answers 500 then. Which statements
  raise is a parameter: \<open>F k\<close> says that the \<open>k\<close>-th statement the handler executes
  raises. A statement that raises writes nothing; what earlier statements wrote stays,
  since no handler opens a transaction.
\<close>

type_synonym faults = "nat \<Rightarrow> bool"

definition no_fault :: faults where
  "no_fault = (\<lambda>k. False)"

text \<open>
  What the handlers take from their environment: the clock (\<open>Date.now()\<close>,
  \<open>CURRENT_TIMESTAMP\<close>), the draw \<open>Math.random()\<close> of the payment stub, and the string
  \<open>Math.random().toString(36).substr(2, 9)\<close> of the generated identifiers (in upper case
  where the source calls \<open>toUpperCase()\<close>).
\<close>

record env =
  clock :: nat
  random_draw :: rat
  random_suffix :: string

datatype response =
    Created int string rat
  | ProductCreated int
  | Success string
  | PaymentOk string int
  | PaymentFailed string
  | BadRequest string
  | NotFound string
  | ServerError string

fun show_nat :: "nat \<Rightarrow> string" where
  "show_nat n =
     (if n < 10 then [''0123456789'' ! n]
      else show_nat (n div 10) @ [''0123456789'' ! (n mod 10)])"

section \<open>Order creation: \<open>router.post('/')\<close> of the orders routes\<close>

text \<open>
  A row of the cart query
  \<open>SELECT ci.*, p.name, p.price, p.stock_quantity FROM cart_items ci JOIN products p
  ON ci.product_id = p.id WHERE ci.user_id = ? AND p.is_active = 1\<close>.
\<close>

record cart_row =
  row_id :: int
  user_id :: int
  product_id :: int
  quantity :: int
  name :: string
  price :: rat
  stock_quantity :: int

definition cart_join :: "cart_item \<Rightarrow> product \<Rightarrow> cart_row" where
  "cart_join ci p =
     \<lparr> row_id = ci_id ci, user_id = ci_user_id ci, product_id = ci_product_id ci,
       quantity = ci_quantity ci, name = p_name p, price = p_price p,
       stock_quantity = p_stock_quantity p \<rparr>"

definition get_cart_items :: "db \<Rightarrow> int \<Rightarrow> cart_row list" where
  "get_cart_items d uid =
     concat (map (\<lambda>ci. map (cart_join ci)
                     (filter (\<lambda>p. p_id p = ci_product_id ci \<and> p_is_active p = 1) (products d)))
                 (filter (\<lambda>ci. ci_user_id ci = uid) (cart_items d)))"

record order_req =
  shippingAddressId :: "int option"
  billingAddressId :: "int option"
  paymentMethod :: "string option"
  req_notes :: "string option"

text \<open>\<open>x || null\<close> and \<open>x || 'pending'\<close>: \<open>undefined\<close>, \<open>0\<close> and \<open>''\<close> are falsy.\<close>

definition id_or_null :: "int option \<Rightarrow> int option" where
  "id_or_null v = (case v of None \<Rightarrow> None | Some i \<Rightarrow> if i = 0 then None else Some i)"

definition str_or_null :: "string option \<Rightarrow> string option" where
  "str_or_null v = (case v of None \<Rightarrow> None | Some s \<Rightarrow> if s = [] then None else Some s)"

definition str_or :: "string option \<Rightarrow> string \<Rightarrow> string" where
  "str_or v dflt = (case v of None \<Rightarrow> dflt | Some s \<Rightarrow> if s = [] then dflt else s)"

definition calc_subtotal :: "cart_row list \<Rightarrow> rat" where
  "calc_subtotal cartItems =
     foldl (\<lambda>sum item. js_add sum (js_mul (price item) (js_int (quantity item)))) 0 cartItems"

definition calc_tax :: "rat \<Rightarrow> rat" where
  "calc_tax subtotal = js_mul subtotal (js_lit (8 / 100))"

definition calc_shipping :: "rat \<Rightarrow> rat" where
  "calc_shipping subtotal = (if subtotal > 100 then 0 else 10)"

definition calc_total :: "rat \<Rightarrow> rat" where
  "calc_total subtotal = js_add (js_add subtotal (calc_tax subtotal)) (calc_shipping subtotal)"

definition order_number :: "env \<Rightarrow> string" where
  "order_number e = ''ORD-'' @ show_nat (clock e) @ ''-'' @ random_suffix e"

definition insertOrder :: "env \<Rightarrow> int \<Rightarrow> order_req \<Rightarrow> rat \<Rightarrow> db \<Rightarrow> db" where
  "insertOrder e uid req subtotal d =
     (let oid = next_rowid (seq_orders d) (map o_id (orders d))
      in d\<lparr> orders := orders d @
               [\<lparr> o_id = oid, o_user_id = uid, o_order_number = order_number e,
                  o_status = ''pending'', o_subtotal = subtotal,
                  o_tax_amount = calc_tax subtotal,
                  o_shipping_amount = calc_shipping subtotal, o_discount_amount = 0,
                  o_total_amount = calc_total subtotal, o_currency = ''USD'',
                  o_payment_status = ''pending'',
                  o_payment_method = Some (str_or (paymentMethod req) ''pending''),
                  o_payment_id = None,
                  o_shipping_address_id = id_or_null (shippingAddressId req),
                  o_billing_address_id = id_or_null (billingAddressId req),
                  o_notes = str_or_null (req_notes req),
                  o_shipped_at = None, o_delivered_at = None,
                  o_created_at = clock e, o_updated_at = clock e \<rparr>],
             seq_orders := oid \<rparr>)"

definition insertOrderItem :: "int \<Rightarrow> cart_row \<Rightarrow> db \<Rightarrow> db" where
  "insertOrderItem orderId item d =
     (let iid = next_rowid (seq_order_items d) (map oi_id (order_items d))
      in d\<lparr> order_items := order_items d @
               [\<lparr> oi_id = iid, oi_order_id = orderId, oi_product_id = product_id item,
                  oi_quantity = quantity item, oi_unit_price = price item,
                  oi_total_price = js_mul (price item) (js_int (quantity item)) \<rparr>],
             seq_order_items := iid \<rparr>)"

definition updateStock :: "int \<Rightarrow> int \<Rightarrow> db \<Rightarrow> db" where
  "updateStock q pid d =
     d\<lparr> products := map (\<lambda>p. if p_id p = pid
                               then p\<lparr> p_stock_quantity := p_stock_quantity p - q \<rparr> else p)
                          (products d) \<rparr>"

definition clearCart :: "int \<Rightarrow> db \<Rightarrow> db" where
  "clearCart uid d = d\<lparr> cart_items := filter (\<lambda>ci. ci_user_id ci \<noteq> uid) (cart_items d) \<rparr>"

text \<open>
  The loop \<open>for (const item of cartItems) { insertOrderItem.run(...); updateStock.run(...) }\<close>.
  \<open>k\<close> is the number of the next statement; the result says whether the loop ran to its
  end, with the store as the loop left it.
\<close>

fun write_items :: "faults \<Rightarrow> nat \<Rightarrow> int \<Rightarrow> cart_row list \<Rightarrow> db \<Rightarrow> bool \<times> db" where
  "write_items F k orderId [] d = (True, d)"
| "write_items F k orderId (item # items) d =
     (if F k then (False, d)
      else (let d1 = insertOrderItem orderId item d
            in if F (k + 1) then (False, d1)
               else write_items F (k + 2) orderId items
                      (updateStock (quantity item) (product_id item) d1)))"

text \<open>
  Statement 0 is the cart query, statement 1 the insert of the order, statements
  \<open>2 + 2 i\<close> and \<open>3 + 2 i\<close> the insert and the stock update of line \<open>i\<close>, the last one the
  delete of the cart.
\<close>

definition create_order :: "faults \<Rightarrow> env \<Rightarrow> int \<Rightarrow> order_req \<Rightarrow> db \<Rightarrow> response \<times> db" where
  "create_order F e uid req d =
     (if F 0 then (ServerError ''Failed to create order'', d)
      else (let cartItems = get_cart_items d uid
        in if length cartItems = 0 then (BadRequest ''Cart is empty'', d)
           else (case find (\<lambda>item. stock_quantity item < quantity item) cartItems of
               Some item \<Rightarrow> (BadRequest (''Insufficient stock for '' @ name item), d)
             | None \<Rightarrow>
                (let subtotal = calc_subtotal cartItems
                 in if F 1 then (ServerError ''Failed to create order'', d)
                    else (let d1 = insertOrder e uid req subtotal d;
                              orderId = seq_orders d1
                          in (case write_items F 2 orderId cartItems d1 of
                                (False, d2) \<Rightarrow> (ServerError ''Failed to create order'', d2)
                              | (True, d2) \<Rightarrow>
                                 if F (2 + 2 * length cartItems)
                                 then (ServerError ''Failed to create order'', d2)
                                 else (Created orderId (order_number e) (calc_total subtotal),
                                       clearCart uid d2)))))))"

section \<open>Order status update: \<open>router.put('/:id/status')\<close>\<close>

definition validStatuses :: "string list" where
  "validStatuses =
     [''pending'', ''confirmed'', ''processing'', ''shipped'', ''delivered'', ''cancelled'']"

definition set_status :: "nat \<Rightarrow> string \<Rightarrow> order \<Rightarrow> order" where
  "set_status now st ord =
     ord\<lparr> o_status := st,
          o_shipped_at := (if st = ''shipped'' then Some now else o_shipped_at ord),
          o_delivered_at := (if st = ''delivered'' then Some now else o_delivered_at ord),
          o_updated_at := now \<rparr>"

text \<open>\<open>status\<close> is \<open>None\<close> when the request body has no such field. Statement 0 is the update.\<close>

definition update_order_status ::
    "faults \<Rightarrow> env \<Rightarrow> int \<Rightarrow> string option \<Rightarrow> db \<Rightarrow> response \<times> db" where
  "update_order_status F e oid status d =
     (case status of
        None \<Rightarrow> (BadRequest ''Invalid status'', d)
      | Some st \<Rightarrow>
          if st \<notin> set validStatuses then (BadRequest ''Invalid status'', d)
          else if F 0 then (ServerError ''Failed to update order status'', d)
          else if length (filter (\<lambda>ord. o_id ord = oid) (orders d)) = 0
               then (NotFound ''Order not found'', d)
               else (Success ''Order status updated successfully'',
                     d\<lparr> orders := map (\<lambda>ord. if o_id ord = oid
                                                then set_status (clock e) st ord else ord)
                                         (orders d) \<rparr>))"

section \<open>Payment confirmation: \<open>router.post('/process')\<close>\<close>

definition payment_completed :: "nat \<Rightarrow> string \<Rightarrow> string \<Rightarrow> order \<Rightarrow> order" where
  "payment_completed now method pay_id ord =
     ord\<lparr> o_payment_status := ''completed'', o_payment_method := Some method,
          o_payment_id := Some pay_id, o_status := ''confirmed'', o_updated_at := now \<rparr>"

definition payment_failed :: "nat \<Rightarrow> order \<Rightarrow> order" where
  "payment_failed now ord = ord\<lparr> o_payment_status := ''failed'', o_updated_at := now \<rparr>"

definition payment_id :: "env \<Rightarrow> string" where
  "payment_id e = ''pay_'' @ show_nat (clock e) @ ''_'' @ random_suffix e"

definition pending_order :: "db \<Rightarrow> int \<Rightarrow> int \<Rightarrow> order option" where
  \<comment> \<open>\<open>SELECT * FROM orders WHERE id = ? AND user_id = ? AND payment_status = 'pending'\<close>\<close>
  "pending_order d oid uid =
     find (\<lambda>ord. o_id ord = oid \<and> o_user_id ord = uid \<and> o_payment_status ord = ''pending'')
          (orders d)"

text \<open>
  \<open>orderId\<close> and \<open>paymentMethod\<close> are \<open>None\<close> when the body lacks them; \<open>0\<close> and \<open>''\<close> are
  falsy as well. Statement 0 is the lookup, statement 1 the update of either branch.
\<close>

definition process_payment ::
    "faults \<Rightarrow> env \<Rightarrow> int \<Rightarrow> int option \<Rightarrow> string option \<Rightarrow> db \<Rightarrow> response \<times> db" where
  "process_payment F e uid orderId method d =
     (case (id_or_null orderId, str_or_null method) of
        (Some oid, Some m) \<Rightarrow>
          if F 0 then (ServerError ''Payment processing failed'', d)
          else (case pending_order d oid uid of
              None \<Rightarrow> (NotFound ''Order not found or already processed'', d)
            | Some ord \<Rightarrow>
                if random_draw e > js_lit (1 / 10)
                then (if F 1 then (ServerError ''Payment processing failed'', d)
                      else (PaymentOk (payment_id e) oid,
                            d\<lparr> orders := map (\<lambda>x. if o_id x = oid
                                    then payment_completed (clock e) m (payment_id e) x
                                    else x) (orders d) \<rparr>))
                else (if F 1 then (ServerError ''Payment processing failed'', d)
                      else (PaymentFailed ''Payment processing failed. Please try again.'',
                            d\<lparr> orders := map (\<lambda>x. if o_id x = oid
                                    then payment_failed (clock e) x else x) (orders d) \<rparr>)))
      | _ \<Rightarrow> (BadRequest ''Order ID and payment method are required'', d))"

section \<open>Product administration\<close>

record product_req =
  req_name :: "string option"
  req_price :: "rat option"
  req_stockQuantity :: "int option"
  req_isActive :: "int option"

definition int_or :: "int option \<Rightarrow> int \<Rightarrow> int" where
  "int_or v dflt = (case v of None \<Rightarrow> dflt | Some i \<Rightarrow> if i = 0 then dflt else i)"

text \<open>
  \<open>router.post('/')\<close> of the product routes; statement 0 is the insert. The images of
  the request go to the table \<open>product_images\<close>, which is not part of the store here.
\<close>

definition create_product :: "faults \<Rightarrow> product_req \<Rightarrow> db \<Rightarrow> response \<times> db" where
  "create_product F req d =
     (case (str_or_null (req_name req), req_price req) of
        (Some nm, Some pr) \<Rightarrow>
          if pr = 0 then (BadRequest ''Name and price are required'', d)
          else if F 0 then (ServerError ''Failed to create product'', d)
          else (let pid = next_rowid (seq_products d) (map p_id (products d))
                in (ProductCreated pid,
                    d\<lparr> products := products d @
                          [\<lparr> p_id = pid, p_name = nm, p_price = pr,
                             p_stock_quantity = int_or (req_stockQuantity req) 0,
                             p_is_active = 1 \<rparr>],
                        seq_products := pid \<rparr>))
      | _ \<Rightarrow> (BadRequest ''Name and price are required'', d))"

text \<open>
  \<open>router.put('/:id')\<close>: \<open>name\<close> and \<open>price\<close> are bound as they come, and the columns are
  \<open>NOT NULL\<close>, so the statement raises when one of them is missing.
\<close>

definition update_product :: "faults \<Rightarrow> int \<Rightarrow> product_req \<Rightarrow> db \<Rightarrow> response \<times> db" where
  "update_product F pid req d =
     (case (req_name req, req_price req) of
        (Some nm, Some pr) \<Rightarrow>
          if F 0 then (ServerError ''Failed to update product'', d)
          else if length (filter (\<lambda>p. p_id p = pid) (products d)) = 0
               then (NotFound ''Product not found'', d)
               else (Success ''Product updated successfully'',
                     d\<lparr> products := map (\<lambda>p. if p_id p = pid
                              then p\<lparr> p_name := nm, p_price := pr,
                                     p_stock_quantity := int_or (req_stockQuantity req) 0,
                                     p_is_active := (case req_isActive req of
                                                        None \<Rightarrow> 1 | Some a \<Rightarrow> a) \<rparr>
                              else p) (products d) \<rparr>)
      | _ \<Rightarrow> (ServerError ''Failed to update product'', d))"

text \<open>\<open>router.delete('/:id')\<close>: a soft delete.\<close>

definition delete_product :: "faults \<Rightarrow> int \<Rightarrow> db \<Rightarrow> response \<times> db" where
  "delete_product F pid d =
     (if F 0 then (ServerError ''Failed to delete product'', d)
      else if length (filter (\<lambda>p. p_id p = pid) (products d)) = 0
           then (NotFound ''Product not found'', d)
           else (Success ''Product deleted successfully'',
                 d\<lparr> products := map (\<lambda>p. if p_id p = pid then p\<lparr> p_is_active := 0 \<rparr> else p)
                                      (products d) \<rparr>))"

section \<open>Cart handlers\<close>

text \<open>
  \<open>router.post('/add')\<close>: statement 0 looks the product up, statement 1 the existing cart
  line, statement 2 writes.
\<close>

definition cart_add ::
    "faults \<Rightarrow> int \<Rightarrow> int option \<Rightarrow> int option \<Rightarrow> db \<Rightarrow> response \<times> db" where
  "cart_add F uid productId qty d =
     (let q = (case qty of None \<Rightarrow> 1 | Some n \<Rightarrow> n)
      in case id_or_null productId of
        None \<Rightarrow> (BadRequest ''Product ID is required'', d)
      | Some pid \<Rightarrow>
          if F 0 then (ServerError ''Failed to add item to cart'', d)
          else (case find (\<lambda>p. p_id p = pid \<and> p_is_active p = 1) (products d) of
             None \<Rightarrow> (NotFound ''Product not found'', d)
           | Some p \<Rightarrow>
               if p_stock_quantity p < q then (BadRequest ''Insufficient stock'', d)
               else if F 1 then (ServerError ''Failed to add item to cart'', d)
               else (case find (\<lambda>ci. ci_user_id ci = uid \<and> ci_product_id ci = pid)
                               (cart_items d) of
                  Some existingItem \<Rightarrow>
                    (let newQuantity = ci_quantity existingItem + q
                     in if p_stock_quantity p < newQuantity
                        then (BadRequest ''Insufficient stock'', d)
                        else if F 2 then (ServerError ''Failed to add item to cart'', d)
                        else (Success ''Item added to cart successfully'',
                              d\<lparr> cart_items := map (\<lambda>ci. if ci_id ci = ci_id existingItem
                                        then ci\<lparr> ci_quantity := newQuantity \<rparr> else ci)
                                      (cart_items d) \<rparr>))
                | None \<Rightarrow>
                    if F 2 then (ServerError ''Failed to add item to cart'', d)
                    else (let cid = next_rowid (seq_cart_items d) (map ci_id (cart_items d))
                          in (Success ''Item added to cart successfully'',
                              d\<lparr> cart_items := cart_items d @
                                    [\<lparr> ci_id = cid, ci_user_id = uid, ci_product_id = pid,
                                       ci_quantity = q \<rparr>],
                                  seq_cart_items := cid \<rparr>)))))"

text \<open>\<open>router.put('/update/:id')\<close>: the lookup joins the product without the active filter.\<close>

definition cart_update ::
    "faults \<Rightarrow> int \<Rightarrow> int \<Rightarrow> int option \<Rightarrow> db \<Rightarrow> response \<times> db" where
  "cart_update F uid cid qty d =
     (case qty of
        None \<Rightarrow> (BadRequest ''Valid quantity is required'', d)
      | Some q \<Rightarrow>
          if q = 0 \<or> q < 1 then (BadRequest ''Valid quantity is required'', d)
          else if F 0 then (ServerError ''Failed to update cart item'', d)
          else (case concat (map (\<lambda>ci. map (cart_join ci)
                                   (filter (\<lambda>p. p_id p = ci_product_id ci) (products d)))
                          (filter (\<lambda>ci. ci_id ci = cid \<and> ci_user_id ci = uid) (cart_items d))) of
             [] \<Rightarrow> (NotFound ''Cart item not found'', d)
           | cartItem # _ \<Rightarrow>
               if stock_quantity cartItem < q then (BadRequest ''Insufficient stock'', d)
               else if F 1 then (ServerError ''Failed to update cart item'', d)
               else (Success ''Cart item updated successfully'',
                     d\<lparr> cart_items := map (\<lambda>ci. if ci_id ci = cid
                               then ci\<lparr> ci_quantity := q \<rparr> else ci) (cart_items d) \<rparr>)))"

definition cart_remove :: "faults \<Rightarrow> int \<Rightarrow> int \<Rightarrow> db \<Rightarrow> response \<times> db" where
  "cart_remove F uid cid d =
     (if F 0 then (ServerError ''Failed to remove item from cart'', d)
      else if length (filter (\<lambda>ci. ci_id ci = cid \<and> ci_user_id ci = uid) (cart_items d)) = 0
           then (NotFound ''Cart item not found'', d)
           else (Success ''Item removed from cart successfully'',
                 d\<lparr> cart_items := filter (\<lambda>ci. \<not> (ci_id ci = cid \<and> ci_user_id ci = uid))
                                         (cart_items d) \<rparr>))"

definition cart_clear :: "faults \<Rightarrow> int \<Rightarrow> db \<Rightarrow> response \<times> db" where
  "cart_clear F uid d =
     (if F 0 then (ServerError ''Failed to clear cart'', d)
      else (Success ''Cart cleared successfully'', clearCart uid d))"

section \<open>The system: every handler that writes one of the four tables\<close>

datatype request =
    CreateOrder int order_req
  | UpdateOrderStatus int "string option"
  | ProcessPayment int "int option" "string option"
  | CreateProduct product_req
  | UpdateProduct int product_req
  | DeleteProduct int
  | CartAdd int "int option" "int option"
  | CartUpdate int int "int option"
  | CartRemove int int
  | CartClear int

fun handle :: "faults \<Rightarrow> env \<Rightarrow> request \<Rightarrow> db \<Rightarrow> response \<times> db" where
  "handle F e (CreateOrder uid req) d = create_order F e uid req d"
| "handle F e (UpdateOrderStatus oid status) d = update_order_status F e oid status d"
| "handle F e (ProcessPayment uid orderId method) d = process_payment F e uid orderId method d"
| "handle F e (CreateProduct req) d = create_product F req d"
| "handle F e (UpdateProduct pid req) d = update_product F pid req d"
| "handle F e (DeleteProduct pid) d = delete_product F pid d"
| "handle F e (CartAdd uid productId qty) d = cart_add F uid productId qty d"
| "handle F e (CartUpdate uid cid qty) d = cart_update F uid cid qty d"
| "handle F e (CartRemove uid cid) d = cart_remove F uid cid d"
| "handle F e (CartClear uid) d = cart_clear F uid d"

text \<open>A history of the system: requests served one after the other, each with its own
  environment and its own faults.\<close>

fun serve :: "(faults \<times> env \<times> request) list \<Rightarrow> db \<Rightarrow> db" where
  "serve [] d = d"
| "serve ((F, e, r) # rs) d = serve rs (snd (handle F e r d))"

section \<open>Notions of the specification\<close>

text \<open>The cart of a user as the table has it, before the join with the products.\<close>

definition user_cart :: "db \<Rightarrow> int \<Rightarrow> cart_item list" where
  "user_cart d uid = filter (\<lambda>ci. ci_user_id ci = uid) (cart_items d)"

definition product_of :: "db \<Rightarrow> int \<Rightarrow> product option" where
  "product_of d pid = find (\<lambda>p. p_id p = pid) (products d)"

definition line_row :: "db \<Rightarrow> cart_item \<Rightarrow> cart_row" where
  "line_row d ci = cart_join ci (the (product_of d (ci_product_id ci)))"

definition unit_price :: "db \<Rightarrow> cart_item \<Rightarrow> rat" where
  "unit_price d ci = (case product_of d (ci_product_id ci) of None \<Rightarrow> 0 | Some p \<Rightarrow> p_price p)"

definition cart_lines_subtotal :: "db \<Rightarrow> int \<Rightarrow> rat" where
  "cart_lines_subtotal d uid =
     foldl (\<lambda>sum ci. js_add sum (js_mul (unit_price d ci) (js_int (ci_quantity ci)))) 0
           (user_cart d uid)"

text \<open>One round of the write loop when no statement raises.\<close>

definition write_item :: "int \<Rightarrow> db \<Rightarrow> cart_row \<Rightarrow> db" where
  "write_item orderId d item =
     updateStock (quantity item) (product_id item) (insertOrderItem orderId item d)"

text \<open>The two carts of the scenarios of the specification, for user 1.\<close>

definition scenario_low :: db where
  "scenario_low =
     \<lparr> products = [\<lparr> p_id = 1, p_name = ''item'', p_price = 10, p_stock_quantity = 5,
                      p_is_active = 1 \<rparr>],
       cart_items = [\<lparr> ci_id = 1, ci_user_id = 1, ci_product_id = 1, ci_quantity = 3 \<rparr>],
       orders = [], order_items = [],
       seq_products = 1, seq_cart_items = 1, seq_orders = 0, seq_order_items = 0 \<rparr>"

definition scenario_high :: db where
  "scenario_high =
     \<lparr> products = [\<lparr> p_id = 1, p_name = ''item'', p_price = 60, p_stock_quantity = 2,
                      p_is_active = 1 \<rparr>],
       cart_items = [\<lparr> ci_id = 1, ci_user_id = 1, ci_product_id = 1, ci_quantity = 2 \<rparr>],
       orders = [], order_items = [],
       seq_products = 1, seq_cart_items = 1, seq_orders = 0, seq_order_items = 0 \<rparr>"

definition order_totals :: "order \<Rightarrow> rat \<times> rat \<times> rat \<times> rat" where
  "order_totals ord =
     (o_subtotal ord, o_tax_amount ord, o_shipping_amount ord, o_total_amount ord)"

text \<open>The order row that \<open>insertOrder\<close> writes.\<close>

definition new_order :: "env \<Rightarrow> int \<Rightarrow> order_req \<Rightarrow> rat \<Rightarrow> db \<Rightarrow> order" where
  "new_order e uid req s d = last (orders (insertOrder e uid req s d))"

text \<open>An environment and a request without any field, for the concrete instances.\<close>

definition env0 :: env where
  "env0 = \<lparr> clock = 1700000000000, random_draw = 1 / 2, random_suffix = ''K3J9X2ABC'' \<rparr>"

definition req0 :: order_req where
  "req0 = \<lparr> shippingAddressId = None, billingAddressId = None, paymentMethod = None,
            req_notes = None \<rparr>"

text \<open>
  What an order item freezes of a cart line: order, product, quantity, unit price and line
  total; and the products table after the stock of every ordered product went down by the
  quantity of its line.
\<close>

definition oi_snapshot :: "order_item \<Rightarrow> int \<times> int \<times> int \<times> rat \<times> rat" where
  "oi_snapshot r = (oi_order_id r, oi_product_id r, oi_quantity r, oi_unit_price r, oi_total_price r)"

definition item_snapshot :: "int \<Rightarrow> cart_row \<Rightarrow> int \<times> int \<times> int \<times> rat \<times> rat" where
  "item_snapshot oid item =
     (oid, product_id item, quantity item, price item, js_mul (price item) (js_int (quantity item)))"

definition line_snapshot :: "db \<Rightarrow> int \<Rightarrow> cart_item \<Rightarrow> int \<times> int \<times> int \<times> rat \<times> rat" where
  "line_snapshot d oid ci =
     (oid, ci_product_id ci, ci_quantity ci, unit_price d ci,
      js_mul (unit_price d ci) (js_int (ci_quantity ci)))"

definition decrement_stock :: "cart_item list \<Rightarrow> product \<Rightarrow> product" where
  "decrement_stock cart p =
     (case find (\<lambda>ci. ci_product_id ci = p_id p) cart of
        None \<Rightarrow> p
      | Some ci \<Rightarrow> p\<lparr> p_stock_quantity := p_stock_quantity p - ci_quantity ci \<rparr>)"

definition take_stock :: "cart_row list \<Rightarrow> product \<Rightarrow> product" where
  "take_stock items p =
     p\<lparr> p_stock_quantity := p_stock_quantity p
          - sum_list (map quantity (filter (\<lambda>item. product_id item = p_id p) items)) \<rparr>"

text \<open>
  The cart lines that the cart query keeps: those whose product exists and is active; and
  the stock of the product of a line. \<open>scenario_inactive\<close> is a cart of user 1 with one
  line of an active product and one line of a product that was retired.
\<close>

definition line_active :: "db \<Rightarrow> cart_item \<Rightarrow> bool" where
  "line_active d ci =
     (case product_of d (ci_product_id ci) of None \<Rightarrow> False | Some p \<Rightarrow> p_is_active p = 1)"

definition active_lines :: "db \<Rightarrow> int \<Rightarrow> cart_item list" where
  "active_lines d uid = filter (line_active d) (user_cart d uid)"

definition line_stock :: "db \<Rightarrow> cart_item \<Rightarrow> int" where
  "line_stock d ci =
     (case product_of d (ci_product_id ci) of None \<Rightarrow> 0 | Some p \<Rightarrow> p_stock_quantity p)"

definition scenario_inactive :: db where
  "scenario_inactive =
     \<lparr> products = [\<lparr> p_id = 1, p_name = ''kept'', p_price = 10, p_stock_quantity = 5,
                      p_is_active = 1 \<rparr>,
                   \<lparr> p_id = 2, p_name = ''retired'', p_price = 20, p_stock_quantity = 5,
                      p_is_active = 0 \<rparr>],
       cart_items = [\<lparr> ci_id = 1, ci_user_id = 1, ci_product_id = 1, ci_quantity = 1 \<rparr>,
                     \<lparr> ci_id = 2, ci_user_id = 1, ci_product_id = 2, ci_quantity = 1 \<rparr>],
       orders = [], order_items = [],
       seq_products = 2, seq_cart_items = 2, seq_orders = 0, seq_order_items = 0 \<rparr>"

text \<open>
  A store with one order of user 1 that awaits its payment, and an environment whose draw
  declines the payment.
\<close>

definition scenario_pending :: db where
  "scenario_pending =
     \<lparr> products = [\<lparr> p_id = 1, p_name = ''item'', p_price = 10, p_stock_quantity = 2,
                      p_is_active = 1 \<rparr>],
       cart_items = [],
       orders = [\<lparr> o_id = 1, o_user_id = 1, o_order_number = ''ORD-1700000000000-K3J9X2ABC'',
                    o_status = ''pending'', o_subtotal = 30, o_tax_amount = js_lit (24 / 10),
                    o_shipping_amount = 10, o_discount_amount = 0,
                    o_total_amount = js_lit (424 / 10), o_currency = ''USD'',
                    o_payment_status = ''pending'', o_payment_method = Some ''pending'',
                    o_payment_id = None, o_shipping_address_id = None,
                    o_billing_address_id = None, o_notes = None, o_shipped_at = None,
                    o_delivered_at = None, o_created_at = 1700000000000,
                    o_updated_at = 1700000000000 \<rparr>],
       order_items = [\<lparr> oi_id = 1, oi_order_id = 1, oi_product_id = 1, oi_quantity = 3,
                         oi_unit_price = 10, oi_total_price = 30 \<rparr>],
       seq_products = 1, seq_cart_items = 1, seq_orders = 1, seq_order_items = 1 \<rparr>"

definition env_declined :: env where
  "env_declined = \<lparr> clock = 1700000000500, random_draw = 1 / 20, random_suffix = ''q7w8e9r0t'' \<rparr>"

text \<open>
  What is frozen of an order: the monetary totals of its row and its order-item rows. And a
  history in which the price and the stock of product 1 are changed and order 1 is shipped.
\<close>

definition order_view :: "db \<Rightarrow> int \<Rightarrow> (rat \<times> rat \<times> rat \<times> rat) list \<times> order_item list" where
  "order_view d k =
     (map order_totals (filter (\<lambda>ord. o_id ord = k) (orders d)),
      filter (\<lambda>r. oi_order_id r = k) (order_items d))"

definition price_change :: "(faults \<times> env \<times> request) list" where
  "price_change =
     [(no_fault, env0, UpdateProduct 1 \<lparr> req_name = Some ''item'', req_price = Some 99,
                                         req_stockQuantity = Some 1, req_isActive = None \<rparr>),
      (no_fault, env0, UpdateOrderStatus 1 (Some ''shipped''))]"

section \<open>Auxiliary facts\<close>

lemma write_items_no_fault:
  "write_items no_fault k orderId items d = (True, foldl (write_item orderId) d items)"
  by (induction items arbitrary: k d) (simp_all add: no_fault_def write_item_def Let_def)

lemma filter_key_single:
  assumes "distinct (map f xs)" "x \<in> set xs"
  shows "filter (\<lambda>y. f y = f x) xs = [x]"
  using assms
proof (induction xs)
  case Nil
  then show ?case by simp
next
  case (Cons a xs)
  show ?case
  proof (cases "a = x")
    case True
    have "f x \<notin> f ` set xs"
      using Cons.prems(1) True by simp
    then have "\<forall>y \<in> set xs. f y \<noteq> f x"
      by (metis imageI)
    then have "filter (\<lambda>y. f y = f x) xs = []"
      by (simp add: filter_empty_conv)
    with True show ?thesis by simp
  next
    case False
    with Cons show ?thesis by auto
  qed
qed

lemma find_key_single:
  assumes "distinct (map f xs)" "x \<in> set xs"
  shows "find (\<lambda>y. f y = f x) xs = Some x"
  using assms
  by (induction xs) (auto simp: rev_image_eqI)

lemma join_line:
  assumes "distinct (map p_id (products d))" "p \<in> set (products d)" "p_id p = k" "p_is_active p = 1"
  shows "filter (\<lambda>p. p_id p = k \<and> p_is_active p = 1) (products d) = [p]"
proof -
  have "filter (\<lambda>q. p_id q = k \<and> p_is_active q = 1) (products d)
        = filter (\<lambda>q. p_is_active q = 1) (filter (\<lambda>q. p_id q = p_id p) (products d))"
    using assms(3) by (simp add: conj_commute)
  also have "\<dots> = [p]"
    using filter_key_single[OF assms(1,2)] assms(4) by simp
  finally show ?thesis .
qed

lemma get_cart_items_lines:
  assumes "distinct (map p_id (products d))"
    and "\<forall>ci \<in> set (user_cart d uid). \<exists>p \<in> set (products d). p_id p = ci_product_id ci \<and> p_is_active p = 1"
  shows "get_cart_items d uid = map (line_row d) (user_cart d uid)"
proof -
  have "map (cart_join ci) (filter (\<lambda>p. p_id p = ci_product_id ci \<and> p_is_active p = 1) (products d))
        = [line_row d ci]" if "ci \<in> set (user_cart d uid)" for ci
  proof -
    from assms(2) that obtain p where p: "p \<in> set (products d)" "p_id p = ci_product_id ci" "p_is_active p = 1"
      by blast
    have "product_of d (ci_product_id ci) = Some p"
      unfolding product_of_def using find_key_single[OF assms(1) p(1)] p(2) by simp
    then show ?thesis
      using join_line[OF assms(1) p] by (simp add: line_row_def)
  qed
  then have "map (\<lambda>ci. map (cart_join ci) (filter (\<lambda>p. p_id p = ci_product_id ci \<and> p_is_active p = 1) (products d))) (user_cart d uid)
     = map (\<lambda>ci. [line_row d ci]) (user_cart d uid)"
    by (intro map_cong refl)
  then have "get_cart_items d uid = concat (map (\<lambda>ci. [line_row d ci]) (user_cart d uid))"
    unfolding get_cart_items_def user_cart_def[symmetric] by (rule arg_cong)
  then show ?thesis by (simp add: concat_map_singleton)
qed

lemma create_order_created:
  assumes "get_cart_items d uid \<noteq> []"
    and "\<forall>item \<in> set (get_cart_items d uid). quantity item \<le> stock_quantity item"
  shows "create_order no_fault e uid req d =
     (Created (next_rowid (seq_orders d) (map o_id (orders d))) (order_number e)
              (calc_total (calc_subtotal (get_cart_items d uid))),
      clearCart uid (foldl (write_item (next_rowid (seq_orders d) (map o_id (orders d))))
                       (insertOrder e uid req (calc_subtotal (get_cart_items d uid)) d)
                       (get_cart_items d uid)))"
proof -
  have "find (\<lambda>item. stock_quantity item < quantity item) (get_cart_items d uid) = None"
    using assms(2) by (auto simp: find_None_iff)
  moreover have "seq_orders (insertOrder e uid req s d) = next_rowid (seq_orders d) (map o_id (orders d))" for s
    by (simp add: insertOrder_def Let_def)
  ultimately show ?thesis
    using assms(1) unfolding create_order_def
    by (simp add: write_items_no_fault no_fault_def[THEN fun_cong] Let_def)
qed


lemma write_item_orders [simp]: "orders (write_item oid d item) = orders d"
  by (simp add: write_item_def updateStock_def insertOrderItem_def Let_def)

lemma write_item_cart_items [simp]: "cart_items (write_item oid d item) = cart_items d"
  by (simp add: write_item_def updateStock_def insertOrderItem_def Let_def)

lemma foldl_write_item_orders [simp]: "orders (foldl (write_item oid) d items) = orders d"
  by (induction items arbitrary: d) simp_all

lemma foldl_write_item_cart_items [simp]:
  "cart_items (foldl (write_item oid) d items) = cart_items d"
  by (induction items arbitrary: d) simp_all

lemma clearCart_fields [simp]:
  "orders (clearCart uid d) = orders d"
  "order_items (clearCart uid d) = order_items d"
  "products (clearCart uid d) = products d"
  "cart_items (clearCart uid d) = filter (\<lambda>ci. ci_user_id ci \<noteq> uid) (cart_items d)"
  by (simp_all add: clearCart_def)

lemma insertOrder_fields [simp]:
  "order_items (insertOrder e uid req s d) = order_items d"
  "products (insertOrder e uid req s d) = products d"
  "cart_items (insertOrder e uid req s d) = cart_items d"
  by (simp_all add: insertOrder_def Let_def)

lemma insertOrder_orders:
  "orders (insertOrder e uid req s d) = orders d @ [new_order e uid req s d]"
  by (simp add: new_order_def insertOrder_def Let_def)

lemma new_order_fields [simp]:
  "o_id (new_order e uid req s d) = next_rowid (seq_orders d) (map o_id (orders d))"
  "o_user_id (new_order e uid req s d) = uid"
  "o_order_number (new_order e uid req s d) = order_number e"
  "o_status (new_order e uid req s d) = ''pending''"
  "o_payment_status (new_order e uid req s d) = ''pending''"
  "o_subtotal (new_order e uid req s d) = s"
  "o_tax_amount (new_order e uid req s d) = calc_tax s"
  "o_shipping_amount (new_order e uid req s d) = calc_shipping s"
  "o_total_amount (new_order e uid req s d) = calc_total s"
  "o_payment_method (new_order e uid req s d) = Some (str_or (paymentMethod req) ''pending'')"
  "o_shipping_address_id (new_order e uid req s d) = id_or_null (shippingAddressId req)"
  "o_billing_address_id (new_order e uid req s d) = id_or_null (billingAddressId req)"
  by (simp_all add: new_order_def insertOrder_def Let_def)

lemma calc_subtotal_lines:
  assumes "\<forall>ci \<in> set cs. \<exists>p. product_of d (ci_product_id ci) = Some p"
  shows "foldl (\<lambda>sum item. js_add sum (js_mul (price item) (js_int (quantity item)))) a (map (line_row d) cs)
       = foldl (\<lambda>sum ci. js_add sum (js_mul (unit_price d ci) (js_int (ci_quantity ci)))) a cs"
  using assms
proof (induction cs arbitrary: a)
  case Nil
  then show ?case by simp
next
  case (Cons c cs)
  from Cons.prems obtain p where "product_of d (ci_product_id c) = Some p" by auto
  then have "price (line_row d c) = unit_price d c" "quantity (line_row d c) = ci_quantity c"
    by (simp_all add: line_row_def unit_price_def cart_join_def)
  with Cons show ?case by simp
qed

lemma product_of_Some:
  assumes "distinct (map p_id (products d))" "p \<in> set (products d)"
  shows "product_of d (p_id p) = Some p"
  unfolding product_of_def using find_key_single[OF assms] .

lemma scenario_low_items:
  "get_cart_items scenario_low 1
     = [\<lparr> row_id = 1, user_id = 1, product_id = 1, quantity = 3, name = ''item'',
          price = 10, stock_quantity = 5 \<rparr>]"
  by (simp add: get_cart_items_def scenario_low_def cart_join_def)

lemma scenario_high_items:
  "get_cart_items scenario_high 1
     = [\<lparr> row_id = 1, user_id = 1, product_id = 1, quantity = 2, name = ''item'',
          price = 60, stock_quantity = 2 \<rparr>]"
  by (simp add: get_cart_items_def scenario_high_def cart_join_def)

lemma double_facts:
  "js_add 0 (js_mul 10 (js_int 3)) = 30"
  "js_add 0 (js_mul 60 (js_int 2)) = 120"
  "js_mul 30 (js_lit (2 / 25)) = js_lit (12 / 5)"
  "js_mul 120 (js_lit (2 / 25)) = js_lit (48 / 5)"
  "js_add (js_add 30 (js_lit (12 / 5))) 10 = js_lit (212 / 5)"
  "js_add (js_add 120 (js_lit (48 / 5))) 0 = js_lit (648 / 5)"
  by code_simp+

lemma scenario_low_totals:
  "calc_subtotal (get_cart_items scenario_low 1) = 30"
  "calc_tax 30 = js_lit (12 / 5)"
  "calc_shipping 30 = 10"
  "calc_total 30 = js_lit (212 / 5)"
  by (simp_all add: scenario_low_items calc_subtotal_def calc_tax_def calc_shipping_def
        calc_total_def double_facts)

lemma scenario_high_totals:
  "calc_subtotal (get_cart_items scenario_high 1) = 120"
  "calc_tax 120 = js_lit (48 / 5)"
  "calc_shipping 120 = 0"
  "calc_total 120 = js_lit (648 / 5)"
  by (simp_all add: scenario_high_items calc_subtotal_def calc_tax_def calc_shipping_def
        calc_total_def double_facts)

lemma scenario_orders [simp]:
  "orders scenario_low = []" "orders scenario_high = []"
  "seq_orders scenario_low = 0" "seq_orders scenario_high = 0"
  by (simp_all add: scenario_low_def scenario_high_def)

lemma write_item_order_items:
  "\<exists>r. order_items (write_item oid d item) = order_items d @ [r] \<and> oi_snapshot r = item_snapshot oid item"
  by (simp add: write_item_def updateStock_def insertOrderItem_def Let_def oi_snapshot_def
        item_snapshot_def)

lemma foldl_write_item_order_items:
  "\<exists>new. order_items (foldl (write_item oid) d items) = order_items d @ new
        \<and> map oi_snapshot new = map (item_snapshot oid) items"
proof (induction items arbitrary: d)
  case Nil
  then show ?case by simp
next
  case (Cons item items)
  obtain r where r: "order_items (write_item oid d item) = order_items d @ [r]"
      "oi_snapshot r = item_snapshot oid item"
    using write_item_order_items by blast
  obtain new where new: "order_items (foldl (write_item oid) (write_item oid d item) items)
        = order_items (write_item oid d item) @ new"
      "map oi_snapshot new = map (item_snapshot oid) items"
    using Cons.IH by blast
  have "order_items (foldl (write_item oid) d (item # items)) = order_items d @ (r # new)"
    using r(1) new(1) by simp
  moreover have "map oi_snapshot (r # new) = map (item_snapshot oid) (item # items)"
    using r(2) new(2) by simp
  ultimately show ?case by blast
qed

lemma take_stock_single:
  "take_stock [item] p
     = (if p_id p = product_id item
        then p\<lparr> p_stock_quantity := p_stock_quantity p - quantity item \<rparr> else p)"
  by (cases p) (simp add: take_stock_def)

lemma write_item_products:
  "products (write_item oid d item) = map (take_stock [item]) (products d)"
proof -
  have "products (write_item oid d item)
        = map (\<lambda>p. if p_id p = product_id item
                    then p\<lparr> p_stock_quantity := p_stock_quantity p - quantity item \<rparr> else p)
              (products d)"
    by (simp add: write_item_def updateStock_def insertOrderItem_def Let_def)
  also have "\<dots> = map (take_stock [item]) (products d)"
    by (rule map_cong[OF refl]) (simp only: take_stock_single)
  finally show ?thesis .
qed

lemma take_stock_Cons: "take_stock items (take_stock [item] p) = take_stock (item # items) p"
  by (simp add: take_stock_def)

lemma take_stock_Nil: "take_stock [] p = p"
  by (cases p) (simp add: take_stock_def)

lemma foldl_write_item_products:
  "products (foldl (write_item oid) d items) = map (take_stock items) (products d)"
proof (induction items arbitrary: d)
  case Nil
  have "map (take_stock []) (products d) = map (\<lambda>p. p) (products d)"
    by (rule map_cong[OF refl]) (rule take_stock_Nil)
  then show ?case by simp
next
  case (Cons item items)
  have "products (foldl (write_item oid) d (item # items))
        = products (foldl (write_item oid) (write_item oid d item) items)"
    by simp
  also have "\<dots> = map (take_stock items) (products (write_item oid d item))"
    by (rule Cons.IH)
  also have "\<dots> = map (take_stock items) (map (take_stock [item]) (products d))"
    by (simp only: write_item_products)
  also have "\<dots> = map (\<lambda>p. take_stock items (take_stock [item] p)) (products d)"
    by (simp only: map_map comp_def)
  also have "\<dots> = map (take_stock (item # items)) (products d)"
    by (rule map_cong[OF refl]) (rule take_stock_Cons)
  finally show ?case .
qed

lemma sum_filter_key:
  assumes "distinct (map f xs)"
  shows "sum_list (map g (filter (\<lambda>x. f x = k) xs))
       = (case find (\<lambda>x. f x = k) xs of None \<Rightarrow> 0 | Some x \<Rightarrow> (g x :: int))"
  using assms
proof (induction xs)
  case Nil
  then show ?case by simp
next
  case (Cons x xs)
  show ?case
  proof (cases "f x = k")
    case True
    have "f x \<notin> f ` set xs"
      using Cons.prems by simp
    then have "\<forall>y \<in> set xs. f y \<noteq> k"
      using True by blast
    then have "filter (\<lambda>x. f x = k) xs = []"
      by (simp add: filter_empty_conv)
    with True show ?thesis by simp
  next
    case False
    have "distinct (map f xs)" using Cons.prems by simp
    from Cons.IH[OF this] False show ?thesis by simp
  qed
qed

lemma line_row_fields [simp]:
  "product_id (line_row d ci) = ci_product_id ci"
  "quantity (line_row d ci) = ci_quantity ci"
  "user_id (line_row d ci) = ci_user_id ci"
  by (simp_all add: line_row_def cart_join_def)

lemma take_stock_lines:
  assumes "distinct (map ci_product_id cart)"
  shows "take_stock (map (line_row d) cart) p = decrement_stock cart p"
proof -
  have "filter (\<lambda>item. product_id item = p_id p) (map (line_row d) cart)
        = map (line_row d) (filter (\<lambda>ci. ci_product_id ci = p_id p) cart)"
    by (induction cart) simp_all
  then have "sum_list (map quantity (filter (\<lambda>item. product_id item = p_id p) (map (line_row d) cart)))
        = sum_list (map ci_quantity (filter (\<lambda>ci. ci_product_id ci = p_id p) cart))"
    by (simp add: comp_def)
  also have "\<dots> = (case find (\<lambda>ci. ci_product_id ci = p_id p) cart of None \<Rightarrow> 0 | Some ci \<Rightarrow> ci_quantity ci)"
    by (rule sum_filter_key[OF assms])
  finally have s: "sum_list (map quantity (filter (\<lambda>item. product_id item = p_id p) (map (line_row d) cart)))
        = (case find (\<lambda>ci. ci_product_id ci = p_id p) cart of None \<Rightarrow> 0 | Some ci \<Rightarrow> ci_quantity ci)" .
  show ?thesis
  proof (cases "find (\<lambda>ci. ci_product_id ci = p_id p) cart")
    case None
    then show ?thesis
      using s by (cases p) (simp add: take_stock_def decrement_stock_def)
  next
    case (Some ci)
    then show ?thesis
      using s by (simp add: take_stock_def decrement_stock_def)
  qed
qed

lemma item_snapshot_line:
  assumes "product_of d (ci_product_id ci) = Some p"
  shows "item_snapshot oid (line_row d ci) = line_snapshot d oid ci"
  using assms by (simp add: item_snapshot_def line_snapshot_def line_row_def cart_join_def unit_price_def)

lemma stocked_cart:
  assumes pk: "distinct (map p_id (products d))"
    and stocked: "\<forall>ci \<in> set (user_cart d uid). \<exists>p \<in> set (products d).
            p_id p = ci_product_id ci \<and> p_is_active p = 1 \<and> ci_quantity ci \<le> p_stock_quantity p"
  shows "get_cart_items d uid = map (line_row d) (user_cart d uid)"
    and "\<forall>ci \<in> set (user_cart d uid). \<exists>p. product_of d (ci_product_id ci) = Some p
            \<and> ci_quantity ci \<le> p_stock_quantity p"
    and "\<forall>item \<in> set (get_cart_items d uid). quantity item \<le> stock_quantity item"
proof -
  have act: "\<forall>ci \<in> set (user_cart d uid). \<exists>p \<in> set (products d).
            p_id p = ci_product_id ci \<and> p_is_active p = 1"
    using stocked by blast
  show items: "get_cart_items d uid = map (line_row d) (user_cart d uid)"
    by (rule get_cart_items_lines[OF pk act])
  show found: "\<forall>ci \<in> set (user_cart d uid). \<exists>p. product_of d (ci_product_id ci) = Some p
            \<and> ci_quantity ci \<le> p_stock_quantity p"
  proof
    fix ci assume "ci \<in> set (user_cart d uid)"
    with stocked obtain p where p: "p \<in> set (products d)" "p_id p = ci_product_id ci"
        "ci_quantity ci \<le> p_stock_quantity p" by blast
    from product_of_Some[OF pk p(1)] p(2,3)
    show "\<exists>p. product_of d (ci_product_id ci) = Some p \<and> ci_quantity ci \<le> p_stock_quantity p"
      by auto
  qed
  show "\<forall>item \<in> set (get_cart_items d uid). quantity item \<le> stock_quantity item"
  proof
    fix item assume "item \<in> set (get_cart_items d uid)"
    then obtain ci where ci: "ci \<in> set (user_cart d uid)" "item = line_row d ci"
      by (auto simp: items)
    from found ci(1) obtain p where "product_of d (ci_product_id ci) = Some p"
        "ci_quantity ci \<le> p_stock_quantity p" by blast
    then show "quantity item \<le> stock_quantity item"
      by (simp add: ci(2) line_row_def cart_join_def)
  qed
qed

lemma map_item_snapshot_lines:
  assumes "\<forall>ci \<in> set cart. \<exists>p. product_of d (ci_product_id ci) = Some p"
  shows "map (item_snapshot oid) (map (line_row d) cart) = map (line_snapshot d oid) cart"
  using assms by (induction cart) (auto simp: item_snapshot_line)

lemma create_order_rejected:
  assumes "get_cart_items d uid = [] \<or> (\<exists>item \<in> set (get_cart_items d uid). stock_quantity item < quantity item)"
  shows "\<exists>msg. create_order no_fault e uid req d = (BadRequest msg, d)"
proof (cases "get_cart_items d uid = []")
  case True
  then show ?thesis
    by (simp add: create_order_def no_fault_def)
next
  case False
  with assms obtain item where "item \<in> set (get_cart_items d uid)" "stock_quantity item < quantity item"
    by blast
  then have "find (\<lambda>item. stock_quantity item < quantity item) (get_cart_items d uid) \<noteq> None"
    by (auto simp: find_None_iff)
  then obtain it where "find (\<lambda>item. stock_quantity item < quantity item) (get_cart_items d uid) = Some it"
    by blast
  with False show ?thesis
    by (simp add: create_order_def no_fault_def)
qed

lemma product_lookup_cases:
  assumes "distinct (map p_id (products d))"
  shows "filter (\<lambda>p. p_id p = k \<and> p_is_active p = 1) (products d)
       = (case product_of d k of None \<Rightarrow> [] | Some p \<Rightarrow> if p_is_active p = 1 then [p] else [])"
proof (cases "product_of d k")
  case None
  then have "\<forall>p \<in> set (products d). p_id p \<noteq> k"
    by (auto simp: product_of_def find_None_iff)
  then have "filter (\<lambda>p. p_id p = k \<and> p_is_active p = 1) (products d) = []"
    by (simp add: filter_empty_conv)
  with None show ?thesis by simp
next
  case (Some p)
  then have p: "p \<in> set (products d)" "p_id p = k"
    by (auto simp: product_of_def find_Some_iff)
  have "filter (\<lambda>q. p_id q = k \<and> p_is_active q = 1) (products d)
        = filter (\<lambda>q. p_is_active q = 1) (filter (\<lambda>q. p_id q = p_id p) (products d))"
    using p(2) by (simp add: conj_commute)
  also have "\<dots> = filter (\<lambda>q. p_is_active q = 1) [p]"
    by (simp only: filter_key_single[OF assms p(1)])
  finally show ?thesis using Some by simp
qed

lemma get_cart_items_active:
  assumes "distinct (map p_id (products d))"
  shows "get_cart_items d uid = map (line_row d) (active_lines d uid)"
proof -
  have "concat (map (\<lambda>ci. map (cart_join ci)
                     (filter (\<lambda>p. p_id p = ci_product_id ci \<and> p_is_active p = 1) (products d))) cs)
        = map (line_row d) (filter (line_active d) cs)" for cs
  proof (induction cs)
    case Nil
    then show ?case by simp
  next
    case (Cons c cs)
    have head: "map (cart_join c)
                 (filter (\<lambda>p. p_id p = ci_product_id c \<and> p_is_active p = 1) (products d))
               = (if line_active d c then [line_row d c] else [])"
      by (cases "product_of d (ci_product_id c)")
         (simp_all add: product_lookup_cases[OF assms] line_active_def line_row_def)
    show ?case
      by (simp only: list.map concat.simps head Cons.IH filter.simps split: if_splits) simp
  qed
  then show ?thesis
    by (simp add: get_cart_items_def active_lines_def user_cart_def)
qed

lemma active_line_row:
  assumes "ci \<in> set (active_lines d uid)"
  shows "\<exists>p. product_of d (ci_product_id ci) = Some p"
    and "stock_quantity (line_row d ci) = line_stock d ci"
proof -
  from assms have "line_active d ci" by (simp add: active_lines_def)
  then show p: "\<exists>p. product_of d (ci_product_id ci) = Some p"
    by (cases "product_of d (ci_product_id ci)") (simp_all add: line_active_def)
  then show "stock_quantity (line_row d ci) = line_stock d ci"
    by (auto simp: line_row_def line_stock_def cart_join_def)
qed

lemma scenario_inactive_items:
  "get_cart_items scenario_inactive 1
     = [\<lparr> row_id = 1, user_id = 1, product_id = 1, quantity = 1, name = ''kept'',
          price = 10, stock_quantity = 5 \<rparr>]"
  by (simp add: get_cart_items_def scenario_inactive_def cart_join_def)

lemma scenario_inactive_subtotal: "calc_subtotal (get_cart_items scenario_inactive 1) = 10"
proof -
  have "js_add 0 (js_mul 10 (js_int 1)) = 10" by code_simp
  then show ?thesis by (simp add: scenario_inactive_items calc_subtotal_def)
qed

lemma scenario_inactive_fields [simp]:
  "orders scenario_inactive = []" "order_items scenario_inactive = []"
  "seq_orders scenario_inactive = 0" "seq_order_items scenario_inactive = 0"
  "cart_items scenario_inactive
     = [\<lparr> ci_id = 1, ci_user_id = 1, ci_product_id = 1, ci_quantity = 1 \<rparr>,
        \<lparr> ci_id = 2, ci_user_id = 1, ci_product_id = 2, ci_quantity = 1 \<rparr>]"
  by (simp_all add: scenario_inactive_def)

lemma pending_order_None:
  assumes "\<not> (\<exists>ord \<in> set (orders d). o_id ord = oid \<and> o_user_id ord = uid
                \<and> o_payment_status ord = ''pending'')"
  shows "pending_order d oid uid = None"
  using assms by (auto simp: pending_order_def find_None_iff)

lemma pending_order_Some:
  assumes "ord \<in> set (orders d)" "o_id ord = oid" "o_user_id ord = uid"
    "o_payment_status ord = ''pending''"
  shows "\<exists>x. pending_order d oid uid = Some x"
proof -
  have "pending_order d oid uid \<noteq> None"
    using assms by (auto simp: pending_order_def find_None_iff)
  then show ?thesis by blast
qed

lemma process_payment_branches:
  assumes "ord \<in> set (orders d)" "o_id ord = oid" "o_user_id ord = uid"
    "o_payment_status ord = ''pending''" "oid \<noteq> 0" "m \<noteq> []"
  shows "process_payment no_fault e uid (Some oid) (Some m) d
       = (if random_draw e > js_lit (1 / 10)
          then (PaymentOk (payment_id e) oid,
                d\<lparr> orders := map (\<lambda>x. if o_id x = oid
                          then payment_completed (clock e) m (payment_id e) x else x) (orders d) \<rparr>)
          else (PaymentFailed ''Payment processing failed. Please try again.'',
                d\<lparr> orders := map (\<lambda>x. if o_id x = oid
                          then payment_failed (clock e) x else x) (orders d) \<rparr>))"
proof -
  obtain x where "pending_order d oid uid = Some x"
    using pending_order_Some[OF assms(1-4)] by blast
  then show ?thesis
    using assms(5,6)
    by (simp add: process_payment_def id_or_null_def str_or_null_def no_fault_def)
qed

lemma completed_rows:
  fixes now :: nat and m :: string and pid :: string
  assumes "ord \<in> set (orders d)" "o_id ord = oid"
  defines "f \<equiv> \<lambda>x. if o_id x = oid then payment_completed now m pid x else x"
  shows "\<exists>x \<in> set (map f (orders d)).
           o_id x = oid \<and> o_payment_status x = ''completed'' \<and> o_status x = ''confirmed''"
    and "\<not> (\<exists>x \<in> set (map f (orders d)). o_id x = oid \<and> o_payment_status x = ''failed'')"
proof -
  have fx: "o_id (f x) = o_id x" for x
    by (simp add: f_def payment_completed_def)
  have hit: "o_payment_status (f x) = ''completed'' \<and> o_status (f x) = ''confirmed''"
    if "o_id x = oid" for x
    using that by (simp add: f_def payment_completed_def)
  have "f ord \<in> set (map f (orders d))"
    using assms(1) by simp
  moreover have "o_id (f ord) = oid" using fx assms(2) by simp
  ultimately show "\<exists>x \<in> set (map f (orders d)).
           o_id x = oid \<and> o_payment_status x = ''completed'' \<and> o_status x = ''confirmed''"
    using hit[OF assms(2)] by blast
  show "\<not> (\<exists>x \<in> set (map f (orders d)). o_id x = oid \<and> o_payment_status x = ''failed'')"
  proof
    assume "\<exists>x \<in> set (map f (orders d)). o_id x = oid \<and> o_payment_status x = ''failed''"
    then obtain y where y: "y \<in> set (orders d)" "o_id (f y) = oid" "o_payment_status (f y) = ''failed''"
      by auto
    from y(2) have "o_id y = oid" using fx by simp
    from hit[OF this] y(3) show False by simp
  qed
qed

lemma failed_rows:
  fixes now :: nat
  assumes "ord \<in> set (orders d)" "o_id ord = oid"
  defines "f \<equiv> \<lambda>x. if o_id x = oid then payment_failed now x else x"
  shows "\<exists>x \<in> set (map f (orders d)). o_id x = oid \<and> o_payment_status x = ''failed''"
    and "\<not> (\<exists>x \<in> set (map f (orders d)).
           o_id x = oid \<and> o_payment_status x = ''completed'' \<and> o_status x = ''confirmed'')"
proof -
  have fx: "o_id (f x) = o_id x" for x
    by (simp add: f_def payment_failed_def)
  have hit: "o_payment_status (f x) = ''failed''" if "o_id x = oid" for x
    using that by (simp add: f_def payment_failed_def)
  have "f ord \<in> set (map f (orders d))"
    using assms(1) by simp
  moreover have "o_id (f ord) = oid" using fx assms(2) by simp
  ultimately show "\<exists>x \<in> set (map f (orders d)). o_id x = oid \<and> o_payment_status x = ''failed''"
    using hit[OF assms(2)] by blast
  show "\<not> (\<exists>x \<in> set (map f (orders d)).
           o_id x = oid \<and> o_payment_status x = ''completed'' \<and> o_status x = ''confirmed'')"
  proof
    assume "\<exists>x \<in> set (map f (orders d)).
           o_id x = oid \<and> o_payment_status x = ''completed'' \<and> o_status x = ''confirmed''"
    then obtain y where y: "y \<in> set (orders d)" "o_id (f y) = oid" "o_payment_status (f y) = ''completed''"
      by auto
    from y(2) have "o_id y = oid" using fx by simp
    from hit[OF this] y(3) show False by simp
  qed
qed

lemma scenario_pending_order:
  "orders scenario_pending ! 0 \<in> set (orders scenario_pending)"
  "o_id (orders scenario_pending ! 0) = 1"
  "o_user_id (orders scenario_pending ! 0) = 1"
  "o_payment_status (orders scenario_pending ! 0) = ''pending''"
  by (simp_all add: scenario_pending_def)

lemma draw_facts:
  "(1 / 2 :: rat) > js_lit (1 / 10)"
  "\<not> (1 / 20 :: rat) > js_lit (1 / 10)"
  by code_simp+

lemma draws:
  "random_draw env0 > js_lit (1 / 10)"
  "\<not> random_draw env_declined > js_lit (1 / 10)"
  using draw_facts by (simp_all add: env0_def env_declined_def)

lemma process_payment_no_method:
  "process_payment F e uid orderId None d
     = (BadRequest ''Order ID and payment method are required'', d)"
  by (cases "id_or_null orderId") (simp_all add: process_payment_def str_or_null_def)

lemma fold_max_ge: "(a :: int) \<le> fold max ids a"
proof (induction ids arbitrary: a)
  case Nil
  then show ?case by simp
next
  case (Cons x xs)
  have "a \<le> max x a" by simp
  also have "\<dots> \<le> fold max xs (max x a)" by (rule Cons.IH)
  finally show ?case by simp
qed

lemma fold_max_mem: "x \<in> set ids \<Longrightarrow> (x :: int) \<le> fold max ids a"
proof (induction ids arbitrary: a)
  case Nil
  then show ?case by simp
next
  case (Cons y ys)
  show ?case
  proof (cases "x = y")
    case True
    have "x \<le> max y a" using True by simp
    also have "\<dots> \<le> fold max ys (max y a)" by (rule fold_max_ge)
    finally show ?thesis by simp
  next
    case False
    with Cons.prems have "x \<in> set ys" by simp
    from Cons.IH[OF this] show ?thesis by simp
  qed
qed

lemma next_rowid_fresh: "x \<in> set ids \<Longrightarrow> x < next_rowid seq ids"
proof -
  assume "x \<in> set ids"
  then have "x \<le> fold max ids 0" by (rule fold_max_mem)
  then show ?thesis by (simp add: next_rowid_def)
qed

lemma write_items_appends:
  "orders (snd (write_items F k oid items d)) = orders d
   \<and> (\<exists>new. order_items (snd (write_items F k oid items d)) = order_items d @ new
            \<and> (\<forall>r \<in> set new. oi_order_id r = oid))"
proof (induction items arbitrary: k d)
  case Nil
  then show ?case by simp
next
  case (Cons item items)
  let ?d1 = "insertOrderItem oid item d"
  let ?d2 = "updateStock (quantity item) (product_id item) ?d1"
  obtain r where r: "order_items ?d1 = order_items d @ [r]" "oi_order_id r = oid"
    by (simp add: insertOrderItem_def Let_def)
  have o1: "orders ?d1 = orders d" by (simp add: insertOrderItem_def Let_def)
  have d2: "orders ?d2 = orders d" "order_items ?d2 = order_items d @ [r]"
    using r(1) o1 by (simp_all add: updateStock_def)
  show ?case
  proof (cases "F k")
    case True
    then show ?thesis by simp
  next
    case False
    show ?thesis
    proof (cases "F (k + 1)")
      case True
      have "snd (write_items F k oid (item # items) d) = ?d1"
        using \<open>\<not> F k\<close> True by (simp add: Let_def)
      then show ?thesis using r o1 by auto
    next
      case f1: False
      have eq: "snd (write_items F k oid (item # items) d) = snd (write_items F (k + 2) oid items ?d2)"
        using \<open>\<not> F k\<close> f1 by (simp add: Let_def)
      from Cons.IH[of "k + 2" ?d2] obtain new where
        new: "orders (snd (write_items F (k + 2) oid items ?d2)) = orders ?d2"
          "order_items (snd (write_items F (k + 2) oid items ?d2)) = order_items ?d2 @ new"
          "\<forall>r \<in> set new. oi_order_id r = oid"
        by blast
      have "order_items (snd (write_items F k oid (item # items) d)) = order_items d @ (r # new)"
        unfolding eq new(2) d2(2) by simp
      moreover have "\<forall>x \<in> set (r # new). oi_order_id x = oid"
        using r(2) new(3) by simp
      moreover have "orders (snd (write_items F k oid (item # items) d)) = orders d"
        unfolding eq new(1) d2(1) ..
      ultimately show ?thesis by blast
    qed
  qed
qed

lemma create_order_appends:
  "\<exists>ords new. orders (snd (create_order F e uid req d)) = orders d @ ords
       \<and> order_items (snd (create_order F e uid req d)) = order_items d @ new
       \<and> (\<forall>x \<in> set ords. o_id x = next_rowid (seq_orders d) (map o_id (orders d)))
       \<and> (\<forall>r \<in> set new. oi_order_id r = next_rowid (seq_orders d) (map o_id (orders d)))"
proof -
  let ?oid = "next_rowid (seq_orders d) (map o_id (orders d))"
  let ?items = "get_cart_items d uid"
  let ?d1 = "insertOrder e uid req (calc_subtotal ?items) d"
  have same: "\<exists>ords new. orders d = orders d @ ords \<and> order_items d = order_items d @ new
       \<and> (\<forall>x \<in> set ords. o_id x = ?oid) \<and> (\<forall>r \<in> set new. oi_order_id r = ?oid)"
    by (intro exI[of _ "[]"]) simp
  have d1: "orders ?d1 = orders d @ [new_order e uid req (calc_subtotal ?items) d]"
      "order_items ?d1 = order_items d" "seq_orders ?d1 = ?oid"
    by (simp_all add: insertOrder_orders) (simp add: insertOrder_def Let_def)
  obtain new where w: "orders (snd (write_items F 2 ?oid ?items ?d1)) = orders ?d1"
      "order_items (snd (write_items F 2 ?oid ?items ?d1)) = order_items ?d1 @ new"
      "\<forall>r \<in> set new. oi_order_id r = ?oid"
    using write_items_appends[of F 2 ?oid ?items ?d1] by blast
  have grown: "\<exists>ords new. orders d2 = orders d @ ords \<and> order_items d2 = order_items d @ new
       \<and> (\<forall>x \<in> set ords. o_id x = ?oid) \<and> (\<forall>r \<in> set new. oi_order_id r = ?oid)"
    if "orders d2 = orders (snd (write_items F 2 ?oid ?items ?d1))"
       "order_items d2 = order_items (snd (write_items F 2 ?oid ?items ?d1))" for d2
  proof -
    have "orders d2 = orders d @ [new_order e uid req (calc_subtotal ?items) d]"
      using that(1) w(1) d1(1) by simp
    moreover have "order_items d2 = order_items d @ new"
      using that(2) w(2) d1(2) by simp
    moreover have "\<forall>x \<in> set [new_order e uid req (calc_subtotal ?items) d]. o_id x = ?oid"
      by simp
    ultimately show ?thesis using w(3) by blast
  qed
  obtain b d2 where W: "write_items F 2 ?oid ?items ?d1 = (b, d2)"
    by (cases "write_items F 2 ?oid ?items ?d1")
  have "snd (create_order F e uid req d) = d
      \<or> snd (create_order F e uid req d) = d2
      \<or> snd (create_order F e uid req d) = clearCart uid d2"
    by (cases b) (simp_all add: create_order_def Let_def d1(3) W split: option.split)
  then consider (a) "snd (create_order F e uid req d) = d"
    | (b) "snd (create_order F e uid req d) = snd (write_items F 2 ?oid ?items ?d1)"
    | (c) "snd (create_order F e uid req d) = clearCart uid (snd (write_items F 2 ?oid ?items ?d1))"
    using W by auto
  then show ?thesis
  proof cases
    case a
    then show ?thesis using same by simp
  next
    case b
    show ?thesis unfolding b by (rule grown) simp_all
  next
    case c
    show ?thesis unfolding c by (rule grown) simp_all
  qed
qed

lemma order_view_appends:
  assumes "k \<in> set (map o_id (orders d))"
    and "orders d' = orders d @ ords" "order_items d' = order_items d @ new"
    and "\<forall>x \<in> set ords. o_id x = next_rowid seq (map o_id (orders d))"
    and "\<forall>r \<in> set new. oi_order_id r = next_rowid seq (map o_id (orders d))"
  shows "order_view d' k = order_view d k" and "k \<in> set (map o_id (orders d'))"
proof -
  have "k < next_rowid seq (map o_id (orders d))"
    using assms(1) by (rule next_rowid_fresh)
  then have ne: "next_rowid seq (map o_id (orders d)) \<noteq> k" by simp
  have "filter (\<lambda>ord. o_id ord = k) ords = []"
    using assms(4) ne by (simp add: filter_empty_conv)
  moreover have "filter (\<lambda>r. oi_order_id r = k) new = []"
    using assms(5) ne by (simp add: filter_empty_conv)
  ultimately show "order_view d' k = order_view d k"
    by (simp add: order_view_def assms(2,3))
  show "k \<in> set (map o_id (orders d'))"
    using assms(1) by (simp add: assms(2))
qed

lemma order_view_same:
  assumes "orders d' = orders d \<and> order_items d' = order_items d"
    and "k \<in> set (map o_id (orders d))"
  shows "order_view d' k = order_view d k \<and> k \<in> set (map o_id (orders d'))"
  using assms by (simp add: order_view_def)

lemma order_view_map:
  assumes "\<forall>x. o_id (f x) = o_id x \<and> order_totals (f x) = order_totals x"
    and "orders d' = map f (orders d)" "order_items d' = order_items d"
    and "k \<in> set (map o_id (orders d))"
  shows "order_view d' k = order_view d k \<and> k \<in> set (map o_id (orders d'))"
proof -
  have "filter (\<lambda>ord. o_id ord = k) (map f (orders d)) = map f (filter (\<lambda>ord. o_id ord = k) (orders d))"
    using assms(1) by (simp add: filter_map comp_def)
  then have "order_view d' k = order_view d k"
    using assms(1) by (simp add: order_view_def assms(2,3) comp_def)
  moreover have "k \<in> set (map o_id (orders d'))"
    using assms(1,4) by (simp add: assms(2) comp_def)
  ultimately show ?thesis ..
qed

lemma update_order_status_maps:
  "\<exists>f. (\<forall>x. o_id (f x) = o_id x \<and> order_totals (f x) = order_totals x)
       \<and> orders (snd (update_order_status F e oid status d)) = map f (orders d)
       \<and> order_items (snd (update_order_status F e oid status d)) = order_items d"
proof -
  let ?f = "\<lambda>ord. if o_id ord = oid then set_status (clock e) (the status) ord else ord"
  have keep: "\<forall>x. o_id (?f x) = o_id x \<and> order_totals (?f x) = order_totals x"
    by (simp add: set_status_def order_totals_def)
  have "snd (update_order_status F e oid status d) = d
      \<or> snd (update_order_status F e oid status d) = d\<lparr> orders := map ?f (orders d) \<rparr>"
    by (cases status) (simp_all add: update_order_status_def)
  then show ?thesis
  proof
    assume "snd (update_order_status F e oid status d) = d"
    then show ?thesis by (intro exI[of _ "\<lambda>x. x"]) simp
  next
    assume "snd (update_order_status F e oid status d) = d\<lparr> orders := map ?f (orders d) \<rparr>"
    then show ?thesis using keep by (intro exI[of _ ?f]) simp
  qed
qed

lemma process_payment_maps:
  "\<exists>f. (\<forall>x. o_id (f x) = o_id x \<and> order_totals (f x) = order_totals x)
       \<and> orders (snd (process_payment F e uid orderId method d)) = map f (orders d)
       \<and> order_items (snd (process_payment F e uid orderId method d)) = order_items d"
proof -
  let ?oid = "the (id_or_null orderId)"
  let ?m = "the (str_or_null method)"
  let ?f = "\<lambda>x. if o_id x = ?oid then payment_completed (clock e) ?m (payment_id e) x else x"
  let ?g = "\<lambda>x. if o_id x = ?oid then payment_failed (clock e) x else x"
  have keep: "\<forall>x. o_id (?f x) = o_id x \<and> order_totals (?f x) = order_totals x"
    "\<forall>x. o_id (?g x) = o_id x \<and> order_totals (?g x) = order_totals x"
    by (simp_all add: payment_completed_def payment_failed_def order_totals_def)
  have "snd (process_payment F e uid orderId method d) = d
      \<or> snd (process_payment F e uid orderId method d) = d\<lparr> orders := map ?f (orders d) \<rparr>
      \<or> snd (process_payment F e uid orderId method d) = d\<lparr> orders := map ?g (orders d) \<rparr>"
    by (cases "id_or_null orderId"; cases "str_or_null method";
        cases "pending_order d (the (id_or_null orderId)) uid")
       (simp_all add: process_payment_def)
  then consider "snd (process_payment F e uid orderId method d) = d"
    | "snd (process_payment F e uid orderId method d) = d\<lparr> orders := map ?f (orders d) \<rparr>"
    | "snd (process_payment F e uid orderId method d) = d\<lparr> orders := map ?g (orders d) \<rparr>"
    by blast
  then show ?thesis
  proof cases
    case 1
    then show ?thesis by (intro exI[of _ "\<lambda>x. x"]) simp
  next
    case 2
    then show ?thesis using keep(1) by (intro exI[of _ ?f]) simp
  next
    case 3
    then show ?thesis using keep(2) by (intro exI[of _ ?g]) simp
  qed
qed

lemma create_product_orders:
  "orders (snd (create_product F req d)) = orders d
   \<and> order_items (snd (create_product F req d)) = order_items d"
  by (cases "str_or_null (req_name req)"; cases "req_price req")
     (simp_all add: create_product_def Let_def)

lemma update_product_orders:
  "orders (snd (update_product F pid req d)) = orders d
   \<and> order_items (snd (update_product F pid req d)) = order_items d"
  by (cases "req_name req"; cases "req_price req") (simp_all add: update_product_def)

lemma delete_product_orders:
  "orders (snd (delete_product F pid d)) = orders d
   \<and> order_items (snd (delete_product F pid d)) = order_items d"
  by (simp add: delete_product_def)

lemma cart_add_orders:
  "orders (snd (cart_add F uid productId qty d)) = orders d
   \<and> order_items (snd (cart_add F uid productId qty d)) = order_items d"
  by (simp add: cart_add_def Let_def split: option.split)

lemma cart_update_orders:
  "orders (snd (cart_update F uid cid qty d)) = orders d
   \<and> order_items (snd (cart_update F uid cid qty d)) = order_items d"
  by (simp add: cart_update_def split: option.split list.split)

lemma cart_remove_orders:
  "orders (snd (cart_remove F uid cid d)) = orders d
   \<and> order_items (snd (cart_remove F uid cid d)) = order_items d"
  by (simp add: cart_remove_def)

lemma cart_clear_orders:
  "orders (snd (cart_clear F uid d)) = orders d
   \<and> order_items (snd (cart_clear F uid d)) = order_items d"
  by (simp add: cart_clear_def)

lemma handle_preserves:
  assumes "k \<in> set (map o_id (orders d))"
  shows "order_view (snd (handle F e r d)) k = order_view d k
       \<and> k \<in> set (map o_id (orders (snd (handle F e r d))))"
proof (cases r)
  case (CreateOrder uid req)
  obtain ords new where "orders (snd (create_order F e uid req d)) = orders d @ ords"
      "order_items (snd (create_order F e uid req d)) = order_items d @ new"
      "\<forall>x \<in> set ords. o_id x = next_rowid (seq_orders d) (map o_id (orders d))"
      "\<forall>r \<in> set new. oi_order_id r = next_rowid (seq_orders d) (map o_id (orders d))"
    using create_order_appends by blast
  from order_view_appends[OF assms this] show ?thesis
    by (simp add: CreateOrder)
next
  case (UpdateOrderStatus oid status)
  obtain f where "\<forall>x. o_id (f x) = o_id x \<and> order_totals (f x) = order_totals x"
      "orders (snd (update_order_status F e oid status d)) = map f (orders d)"
      "order_items (snd (update_order_status F e oid status d)) = order_items d"
    using update_order_status_maps by blast
  from order_view_map[OF this assms] show ?thesis
    by (simp add: UpdateOrderStatus)
next
  case (ProcessPayment uid orderId pm)
  obtain f where "\<forall>x. o_id (f x) = o_id x \<and> order_totals (f x) = order_totals x"
      "orders (snd (process_payment F e uid orderId pm d)) = map f (orders d)"
      "order_items (snd (process_payment F e uid orderId pm d)) = order_items d"
    using process_payment_maps by blast
  from order_view_map[OF this assms] show ?thesis
    by (simp add: ProcessPayment)
next
  case (CreateProduct req)
  from order_view_same[OF create_product_orders assms] show ?thesis
    by (simp add: CreateProduct)
next
  case (UpdateProduct pid req)
  from order_view_same[OF update_product_orders assms] show ?thesis
    by (simp add: UpdateProduct)
next
  case (DeleteProduct pid)
  from order_view_same[OF delete_product_orders assms] show ?thesis
    by (simp add: DeleteProduct)
next
  case (CartAdd uid productId qty)
  from order_view_same[OF cart_add_orders assms] show ?thesis
    by (simp add: CartAdd)
next
  case (CartUpdate uid cid qty)
  from order_view_same[OF cart_update_orders assms] show ?thesis
    by (simp add: CartUpdate)
next
  case (CartRemove uid cid)
  from order_view_same[OF cart_remove_orders assms] show ?thesis
    by (simp add: CartRemove)
next
  case (CartClear uid)
  from order_view_same[OF cart_clear_orders assms] show ?thesis
    by (simp add: CartClear)
qed

section \<open>Order creation: totals\<close>



section \<open>Order creation: a statement that raises\<close>

text \<open>
  Claim C2 asks that a failed order creation leaves no order row, no order-item row, no
  stock change and the cart as it was, also when a later step of the write sequence
  errors. The handler announces a transaction in a comment and opens none. With the cart
  of \<open>scenario_low\<close> and the store raising at statement 3, the stock update of the first
  line, the handler answers 500 and leaves one order row and one order-item row behind,
  with the stock and the cart untouched.
\<close>

theorem create_order_partial_write:
  "orders scenario_low = [] \<and> order_items scenario_low = []
   \<and> fst (create_order (\<lambda>k. k = 3) env0 1 req0 scenario_low) = ServerError ''Failed to create order''
   \<and> map o_user_id (orders (snd (create_order (\<lambda>k. k = 3) env0 1 req0 scenario_low))) = [1]
   \<and> map oi_product_id (order_items (snd (create_order (\<lambda>k. k = 3) env0 1 req0 scenario_low))) = [1]
   \<and> products (snd (create_order (\<lambda>k. k = 3) env0 1 req0 scenario_low)) = products scenario_low
   \<and> cart_items (snd (create_order (\<lambda>k. k = 3) env0 1 req0 scenario_low)) = cart_items scenario_low"
proof -
  have res: "create_order (\<lambda>k. k = 3) env0 1 req0 scenario_low
     = (ServerError ''Failed to create order'',
        insertOrderItem (next_rowid (seq_orders scenario_low) (map o_id (orders scenario_low)))
          \<lparr> row_id = 1, user_id = 1, product_id = 1, quantity = 3, name = ''item'',
            price = 10, stock_quantity = 5 \<rparr>
          (insertOrder env0 1 req0 (calc_subtotal (get_cart_items scenario_low 1)) scenario_low))"
    by (simp add: create_order_def scenario_low_items Let_def insertOrder_def)
  have a: "orders scenario_low = []" "order_items scenario_low = []"
    by (simp_all add: scenario_low_def)
  have b: "fst (create_order (\<lambda>k. k = 3) env0 1 req0 scenario_low) = ServerError ''Failed to create order''"
    by (simp add: res)
  have c: "map o_user_id (orders (snd (create_order (\<lambda>k. k = 3) env0 1 req0 scenario_low))) = [1]"
    by (simp add: res insertOrderItem_def insertOrder_def Let_def)
  have d: "map oi_product_id (order_items (snd (create_order (\<lambda>k. k = 3) env0 1 req0 scenario_low))) = [1]"
    by (simp add: res insertOrderItem_def insertOrder_def Let_def a)
  have e: "products (snd (create_order (\<lambda>k. k = 3) env0 1 req0 scenario_low)) = products scenario_low"
    by (simp add: res insertOrderItem_def insertOrder_def Let_def)
  have f: "cart_items (snd (create_order (\<lambda>k. k = 3) env0 1 req0 scenario_low)) = cart_items scenario_low"
    by (simp add: res insertOrderItem_def insertOrder_def Let_def)
  from a b c d e f show ?thesis by (intro conjI)
qed

section \<open>Payment confirmation: outcome\<close>

text \<open>
  Claim C3 says that for every order of the requesting user with payment status pending a
  payment confirmation produces one of the two outcomes, never neither. The handler first
  requires a payment method: for the pending order 1 of user 1 a confirmation without a
  payment method is answered 400 and the order stays pending.
\<close>

theorem payment_without_method:
  "o_id (orders scenario_pending ! 0) = 1
   \<and> o_user_id (orders scenario_pending ! 0) = 1
   \<and> o_payment_status (orders scenario_pending ! 0) = ''pending''
   \<and> process_payment no_fault env0 1 (Some 1) None scenario_pending
        = (BadRequest ''Order ID and payment method are required'', scenario_pending)"
  using scenario_pending_order(2-4) process_payment_no_method[of no_fault env0 1 "Some 1" scenario_pending]
  by (intro conjI)

text \<open>
  Claim C3 as amended. For every order of the requesting user with payment status pending,
  a payment confirmation that carries a non-empty payment method (the store raising no
  error) produces exactly one of two outcomes, decided by the draw: either the payment
  status becomes completed, the order status confirmed, and the payment method and
  payment identifier are recorded; or the payment status becomes failed and no other
  column but the update timestamp changes. Never both, never neither; other orders and
  other tables stay.
\<close>

theorem process_payment_outcome:
  assumes "ord \<in> set (orders d)" "o_id ord = oid" "o_user_id ord = uid"
    "o_payment_status ord = ''pending''" "oid \<noteq> 0" "m \<noteq> []"
  shows "(random_draw e > js_lit (1 / 10) \<longrightarrow>
            fst (process_payment no_fault e uid (Some oid) (Some m) d) = PaymentOk (payment_id e) oid
          \<and> orders (snd (process_payment no_fault e uid (Some oid) (Some m) d))
              = map (\<lambda>x. if o_id x = oid
                          then x\<lparr> o_payment_status := ''completed'', o_payment_method := Some m,
                                 o_payment_id := Some (payment_id e), o_status := ''confirmed'',
                                 o_updated_at := clock e \<rparr>
                          else x) (orders d))
       \<and> (\<not> random_draw e > js_lit (1 / 10) \<longrightarrow>
            fst (process_payment no_fault e uid (Some oid) (Some m) d)
              = PaymentFailed ''Payment processing failed. Please try again.''
          \<and> orders (snd (process_payment no_fault e uid (Some oid) (Some m) d))
              = map (\<lambda>x. if o_id x = oid
                          then x\<lparr> o_payment_status := ''failed'', o_updated_at := clock e \<rparr>
                          else x) (orders d))
       \<and> ((\<exists>x \<in> set (orders (snd (process_payment no_fault e uid (Some oid) (Some m) d))).
               o_id x = oid \<and> o_payment_status x = ''completed'' \<and> o_status x = ''confirmed'')
           \<noteq> (\<exists>x \<in> set (orders (snd (process_payment no_fault e uid (Some oid) (Some m) d))).
               o_id x = oid \<and> o_payment_status x = ''failed''))
       \<and> snd (process_payment no_fault e uid (Some oid) (Some m) d)
            = d\<lparr> orders := orders (snd (process_payment no_fault e uid (Some oid) (Some m) d)) \<rparr>"
    (is "(?D \<longrightarrow> ?A) \<and> (\<not> ?D \<longrightarrow> ?B) \<and> ?X \<and> ?S")
proof (cases "random_draw e > js_lit (1 / 10)")
  case True
  have res: "process_payment no_fault e uid (Some oid) (Some m) d
       = (PaymentOk (payment_id e) oid,
          d\<lparr> orders := map (\<lambda>x. if o_id x = oid
                 then payment_completed (clock e) m (payment_id e) x else x) (orders d) \<rparr>)"
    by (simp only: process_payment_branches[OF assms] True if_True)
  have A: ?A
    unfolding res by (simp add: payment_completed_def)
  have X: ?X
    unfolding res using completed_rows[OF assms(1,2), of "clock e" m "payment_id e"] by simp
  have S: ?S
    unfolding res by simp
  from True A X S show ?thesis by blast
next
  case False
  have res: "process_payment no_fault e uid (Some oid) (Some m) d
       = (PaymentFailed ''Payment processing failed. Please try again.'',
          d\<lparr> orders := map (\<lambda>x. if o_id x = oid then payment_failed (clock e) x else x) (orders d) \<rparr>)"
    by (simp only: process_payment_branches[OF assms] False if_False)
  have B: ?B
    unfolding res by (simp add: payment_failed_def)
  have X: ?X
    unfolding res using failed_rows[OF assms(1,2), of "clock e"] by simp
  have S: ?S
    unfolding res by simp
  from False B X S show ?thesis by blast
qed

theorem process_payment_outcome_witness:
  "orders scenario_pending ! 0 \<in> set (orders scenario_pending)
   \<and> o_id (orders scenario_pending ! 0) = 1
   \<and> o_user_id (orders scenario_pending ! 0) = 1
   \<and> o_payment_status (orders scenario_pending ! 0) = ''pending''
   \<and> random_draw env0 > js_lit (1 / 10)
   \<and> fst (process_payment no_fault env0 1 (Some 1) (Some ''credit_card'') scenario_pending)
        = PaymentOk (payment_id env0) 1
   \<and> orders (snd (process_payment no_fault env0 1 (Some 1) (Some ''credit_card'') scenario_pending))
        = map (\<lambda>x. if o_id x = 1
                    then x\<lparr> o_payment_status := ''completed'',
                           o_payment_method := Some ''credit_card'',
                           o_payment_id := Some (payment_id env0), o_status := ''confirmed'',
                           o_updated_at := clock env0 \<rparr>
                    else x) (orders scenario_pending)
   \<and> \<not> random_draw env_declined > js_lit (1 / 10)
   \<and> fst (process_payment no_fault env_declined 1 (Some 1) (Some ''credit_card'') scenario_pending)
        = PaymentFailed ''Payment processing failed. Please try again.''
   \<and> orders (snd (process_payment no_fault env_declined 1 (Some 1) (Some ''credit_card'')
                     scenario_pending))
        = map (\<lambda>x. if o_id x = 1
                    then x\<lparr> o_payment_status := ''failed'', o_updated_at := clock env_declined \<rparr>
                    else x) (orders scenario_pending)"
proof -
  have h5: "(1::int) \<noteq> 0" and h6: "''credit_card'' \<noteq> []"
    by simp_all
  note t = process_payment_outcome[OF scenario_pending_order h5 h6]
  note a = t[of env0, THEN conjunct1, THEN mp, OF draws(1)]
  note b = t[of env_declined, THEN conjunct2, THEN conjunct1, THEN mp, OF draws(2)]
  from scenario_pending_order draws(1) a[THEN conjunct1] a[THEN conjunct2] draws(2)
    b[THEN conjunct1] b[THEN conjunct2]
  show ?thesis by (intro conjI)
qed

section \<open>Order creation: the writes\<close>



section \<open>Payment confirmation: rejection\<close>

text \<open>
  Claim C5. A payment confirmation whose order id does not identify an order of the
  requesting user with payment status pending is answered with an error (400, 404 or
  500) and the store is unchanged, whatever the payment method and whatever the store
  would raise.
\<close>

theorem process_payment_rejected:
  assumes "\<forall>oid. orderId = Some oid \<longrightarrow>
             \<not> (\<exists>ord \<in> set (orders d). o_id ord = oid \<and> o_user_id ord = uid
                    \<and> o_payment_status ord = ''pending'')"
  shows "snd (process_payment F e uid orderId method d) = d
       \<and> (fst (process_payment F e uid orderId method d)
             = BadRequest ''Order ID and payment method are required''
          \<or> fst (process_payment F e uid orderId method d)
             = NotFound ''Order not found or already processed''
          \<or> fst (process_payment F e uid orderId method d)
             = ServerError ''Payment processing failed'')"
proof (cases "id_or_null orderId")
  case None
  then show ?thesis by (simp add: process_payment_def)
next
  case (Some oid)
  then have "orderId = Some oid"
    by (cases orderId) (simp_all add: id_or_null_def split: if_splits)
  with assms have "pending_order d oid uid = None"
    by (intro pending_order_None) blast
  with Some show ?thesis
    by (cases "str_or_null method") (simp_all add: process_payment_def)
qed

theorem process_payment_rejected_witness:
  "list_all (\<lambda>ord. \<not> (o_id ord = 1 \<and> o_user_id ord = 2 \<and> o_payment_status ord = ''pending''))
      (orders scenario_pending)
   \<and> snd (process_payment no_fault env0 2 (Some 1) (Some ''credit_card'') scenario_pending)
       = scenario_pending
   \<and> fst (process_payment no_fault env0 2 (Some 1) (Some ''credit_card'') scenario_pending)
       = NotFound ''Order not found or already processed''"
proof -
  have h: "\<forall>oid. Some (1::int) = Some oid \<longrightarrow>
             \<not> (\<exists>ord \<in> set (orders scenario_pending). o_id ord = oid \<and> o_user_id ord = 2
                    \<and> o_payment_status ord = ''pending'')"
    by (simp add: scenario_pending_def)
  have h': "list_all (\<lambda>ord. \<not> (o_id ord = 1 \<and> o_user_id ord = 2 \<and> o_payment_status ord = ''pending''))
      (orders scenario_pending)"
    by (simp add: scenario_pending_def)
  note t = process_payment_rejected[OF h, of no_fault env0 "Some ''credit_card''"]
  have "fst (process_payment no_fault env0 2 (Some 1) (Some ''credit_card'') scenario_pending)
       = NotFound ''Order not found or already processed''"
    by (simp add: process_payment_def id_or_null_def str_or_null_def no_fault_def
          pending_order_None[OF h[rule_format, OF refl]])
  with h' t[THEN conjunct1] show ?thesis by (intro conjI)
qed

section \<open>The order snapshot\<close>

text \<open>
  Claim C6. Once an order exists, its order-item rows (product, quantity, unit price, line
  total) and its monetary totals (subtotal, tax, shipping, total) are the same after every
  history of requests to the handlers that write the products, the cart, the orders or the
  order items, whatever the requests and whatever the store raises on the way: order
  creation, status update, payment confirmation, product creation, update and soft
  delete, and the four cart requests. In particular a later change of the price or the
  stock of a product leaves them as they were.
\<close>

theorem order_snapshot_immutable:
  assumes "k \<in> set (map o_id (orders d))"
  shows "order_view (serve rs d) k = order_view d k"
  using assms
proof (induction rs arbitrary: d)
  case Nil
  then show ?case by simp
next
  case (Cons step rs)
  obtain F e r where step: "step = (F, e, r)"
    by (cases step)
  note h = handle_preserves[OF Cons.prems, of F e r]
  have "order_view (serve (step # rs) d) k = order_view (snd (handle F e r d)) k"
    unfolding step by (simp add: Cons.IH[OF h[THEN conjunct2]])
  also have "\<dots> = order_view d k"
    by (rule h[THEN conjunct1])
  finally show ?case .
qed

theorem order_snapshot_immutable_witness:
  "1 \<in> set (map o_id (orders scenario_pending))
   \<and> map p_price (products scenario_pending) = [10]
   \<and> map p_price (products (serve price_change scenario_pending)) = [99]
   \<and> order_view (serve price_change scenario_pending) 1 = order_view scenario_pending 1"
proof -
  have h: "1 \<in> set (map o_id (orders scenario_pending))"
    by (simp add: scenario_pending_def)
  have a: "map p_price (products scenario_pending) = [10]"
    by (simp add: scenario_pending_def)
  have b: "map p_price (products (serve price_change scenario_pending)) = [99]"
    by (simp add: price_change_def update_product_def update_order_status_def no_fault_def
          validStatuses_def int_or_def scenario_pending_def)
  from h a b order_snapshot_immutable[OF h, of price_change] show ?thesis
    by (intro conjI)
qed

section \<open>Order creation: lines of inactive products\<close>




section \<open>Order creation: the scenarios\<close>

text \<open>
  Claim C8. For the cart of one line of price 10.00 and quantity 3, with stock 5, order
  creation yields subtotal 30, shipping 10, tax 2.40 and total 42.40; for the cart of one
  line of price 60.00 and quantity 2, with stock 2, it yields subtotal 120, shipping 0, tax
  9.60 and total 129.60. The amounts are exactly the JavaScript numbers that these decimal
  literals denote (\<open>js_lit\<close>): the binary64 arithmetic of the handler introduces no
  deviation from them. The tuples are (subtotal, tax, shipping, total).
\<close>

theorem scenario_totals:
  "fst (create_order no_fault e 1 req scenario_low) = Created 1 (order_number e) (js_lit (4240 / 100))
   \<and> fst (create_order no_fault e 1 req scenario_high) = Created 1 (order_number e) (js_lit (12960 / 100))
   \<and> map order_totals (orders (snd (create_order no_fault e 1 req scenario_low)))
     = [(30, js_lit (240 / 100), 10, js_lit (4240 / 100))]
   \<and> map order_totals (orders (snd (create_order no_fault e 1 req scenario_high)))
     = [(120, js_lit (960 / 100), 0, js_lit (12960 / 100))]"
proof -
  have "create_order no_fault e 1 req scenario_low =
     (Created (next_rowid (seq_orders scenario_low) (map o_id (orders scenario_low))) (order_number e)
              (calc_total (calc_subtotal (get_cart_items scenario_low 1))),
      clearCart 1 (foldl (write_item (next_rowid (seq_orders scenario_low) (map o_id (orders scenario_low))))
                       (insertOrder e 1 req (calc_subtotal (get_cart_items scenario_low 1)) scenario_low)
                       (get_cart_items scenario_low 1)))"
    by (rule create_order_created) (simp_all add: scenario_low_items)
  then have low: "fst (create_order no_fault e 1 req scenario_low) = Created 1 (order_number e) (js_lit (4240 / 100))
      \<and> map order_totals (orders (snd (create_order no_fault e 1 req scenario_low)))
     = [(30, js_lit (240 / 100), 10, js_lit (4240 / 100))]"
    by (simp add: insertOrder_orders order_totals_def scenario_low_totals next_rowid_def)
  have "create_order no_fault e 1 req scenario_high =
     (Created (next_rowid (seq_orders scenario_high) (map o_id (orders scenario_high))) (order_number e)
              (calc_total (calc_subtotal (get_cart_items scenario_high 1))),
      clearCart 1 (foldl (write_item (next_rowid (seq_orders scenario_high) (map o_id (orders scenario_high))))
                       (insertOrder e 1 req (calc_subtotal (get_cart_items scenario_high 1)) scenario_high)
                       (get_cart_items scenario_high 1)))"
    by (rule create_order_created) (simp_all add: scenario_high_items)
  then have high: "fst (create_order no_fault e 1 req scenario_high) = Created 1 (order_number e) (js_lit (12960 / 100))
      \<and> map order_totals (orders (snd (create_order no_fault e 1 req scenario_high)))
     = [(120, js_lit (960 / 100), 0, js_lit (12960 / 100))]"
    by (simp add: insertOrder_orders order_totals_def scenario_high_totals next_rowid_def)
  from low high show ?thesis by simp
qed

section \<open>Order status update\<close>

text \<open>
  Claim C9. A status update whose status is not one of pending, confirmed, processing,
  shipped, delivered, cancelled (or is missing) is rejected and the store is unchanged,
  whatever the store would raise. When the status is one of the six and the order exists,
  the request succeeds (the store raising no error), the status of that order is the
  given one, the status of every other order stays, and no other table changes.
\<close>

theorem update_order_status_validated:
  "((\<forall>st. status = Some st \<longrightarrow> st \<notin> set [''pending'', ''confirmed'', ''processing'',
                                             ''shipped'', ''delivered'', ''cancelled''])
       \<longrightarrow> update_order_status F e oid status d = (BadRequest ''Invalid status'', d))
   \<and> (status = Some st \<and> st \<in> set [''pending'', ''confirmed'', ''processing'',
                                        ''shipped'', ''delivered'', ''cancelled'']
       \<and> oid \<in> set (map o_id (orders d))
       \<longrightarrow> fst (update_order_status no_fault e oid status d)
              = Success ''Order status updated successfully''
         \<and> map o_id (orders (snd (update_order_status no_fault e oid status d)))
              = map o_id (orders d)
         \<and> map o_status (orders (snd (update_order_status no_fault e oid status d)))
              = map (\<lambda>ord. if o_id ord = oid then st else o_status ord) (orders d)
         \<and> snd (update_order_status no_fault e oid status d)
              = d\<lparr> orders := orders (snd (update_order_status no_fault e oid status d)) \<rparr>)"
proof (intro conjI impI)
  assume "\<forall>st. status = Some st \<longrightarrow> st \<notin> set [''pending'', ''confirmed'', ''processing'',
                                             ''shipped'', ''delivered'', ''cancelled'']"
  then show "update_order_status F e oid status d = (BadRequest ''Invalid status'', d)"
    by (cases status) (simp_all add: update_order_status_def validStatuses_def)
next
  assume a: "status = Some st \<and> st \<in> set [''pending'', ''confirmed'', ''processing'',
                                        ''shipped'', ''delivered'', ''cancelled'']
       \<and> oid \<in> set (map o_id (orders d))"
  then have valid: "st \<in> set validStatuses" and st: "status = Some st"
    by (simp_all add: validStatuses_def)
  from a have "filter (\<lambda>ord. o_id ord = oid) (orders d) \<noteq> []"
    by (auto simp: filter_empty_conv)
  with valid st have res: "update_order_status no_fault e oid status d
      = (Success ''Order status updated successfully'',
         d\<lparr> orders := map (\<lambda>ord. if o_id ord = oid then set_status (clock e) st ord else ord)
                          (orders d) \<rparr>)"
    by (simp add: update_order_status_def no_fault_def)
  show "fst (update_order_status no_fault e oid status d) = Success ''Order status updated successfully''"
    by (simp add: res)
  show "map o_id (orders (snd (update_order_status no_fault e oid status d))) = map o_id (orders d)"
    by (simp add: res set_status_def comp_def)
  show "map o_status (orders (snd (update_order_status no_fault e oid status d)))
              = map (\<lambda>ord. if o_id ord = oid then st else o_status ord) (orders d)"
    by (simp add: res set_status_def comp_def)
  show "snd (update_order_status no_fault e oid status d)
              = d\<lparr> orders := orders (snd (update_order_status no_fault e oid status d)) \<rparr>"
    by (simp add: res)
qed

theorem update_order_status_validated_witness:
  "update_order_status no_fault env0 1 None scenario_pending
     = (BadRequest ''Invalid status'', scenario_pending)
   \<and> update_order_status no_fault env0 1 (Some ''refunded'') scenario_pending
     = (BadRequest ''Invalid status'', scenario_pending)
   \<and> 1 \<in> set (map o_id (orders scenario_pending))
   \<and> fst (update_order_status no_fault env0 1 (Some ''shipped'') scenario_pending)
       = Success ''Order status updated successfully''
   \<and> map o_status (orders (snd (update_order_status no_fault env0 1 (Some ''shipped'')
                                  scenario_pending)))
       = map (\<lambda>ord. if o_id ord = 1 then ''shipped'' else o_status ord) (orders scenario_pending)"
proof -
  have h1: "\<forall>st. (None :: string option) = Some st \<longrightarrow> st \<notin> set [''pending'', ''confirmed'',
              ''processing'', ''shipped'', ''delivered'', ''cancelled'']"
    by simp
  have h2: "\<forall>st. Some ''refunded'' = Some st \<longrightarrow> st \<notin> set [''pending'', ''confirmed'',
              ''processing'', ''shipped'', ''delivered'', ''cancelled'']"
    by simp
  have h3: "1 \<in> set (map o_id (orders scenario_pending))"
    by (simp add: scenario_pending_def)
  have h4: "Some ''shipped'' = Some ''shipped'' \<and> ''shipped'' \<in> set [''pending'', ''confirmed'',
              ''processing'', ''shipped'', ''delivered'', ''cancelled'']
            \<and> 1 \<in> set (map o_id (orders scenario_pending))"
    using h3 by simp
  note a = update_order_status_validated[of None no_fault env0 1 scenario_pending,
              THEN conjunct1, THEN mp, OF h1]
  note b = update_order_status_validated[of "Some ''refunded''" no_fault env0 1 scenario_pending,
              THEN conjunct1, THEN mp, OF h2]
  note c = update_order_status_validated[of "Some ''shipped''" no_fault env0 1 scenario_pending
              "''shipped''", THEN conjunct2, THEN mp, OF h4]
  from a b h3 c[THEN conjunct1] c[THEN conjunct2, THEN conjunct2, THEN conjunct1]
  show ?thesis by (intro conjI)
qed

section \<open>Order creation: the request fields\<close>



end
